theory Spec2Isabelle
  imports Complex_Main "HOL-Library.Word" "HOL-Library.Sublist"
begin

section \<open>JavaScript strings\<close>

text \<open>
  A JavaScript string is a sequence of 16-bit code units. The literals of the source are
  ASCII unless noted; \<open>js\<close> embeds an ASCII literal.
\<close>

type_synonym jsstring = "16 word list"

definition js :: "string \<Rightarrow> jsstring" where
  "js s = map of_char s"

section \<open>Model tiers (copilot service, \<open>isModelPremium\<close>)\<close>

text \<open>
  \<open>ModelInfo\<close> comes from the vendor SDK. \<open>isModelPremium\<close> reads the billing object
  untyped (\<open>model.billing as any\<close>), so \<open>is_premium\<close> may hold any value: \<open>None\<close> is
  \<open>undefined\<close> (the property is absent), \<open>Some v\<close> any other value. The multiplier is a
  JSON number, hence finite: a rational; \<open>None\<close> is \<open>undefined\<close> or \<open>null\<close>, the two values
  that \<open>??\<close> replaces.
\<close>

datatype jsvalue = JNull | JBoolean bool | JNumber rat | JString jsstring | JObject

record billing_info =
  is_premium :: "jsvalue option"
  multiplier :: "rat option"

record ModelInfo =
  model_id :: jsstring
  model_name :: jsstring
  billing :: "billing_info option"

text \<open>
  \<^verbatim>\<open>
  const billing = model.billing as any;
  if (billing?.is_premium !== undefined) return billing.is_premium === true;
  return (model.billing?.multiplier ?? 0) > 0;
  \<close>
\<close>

definition isModelPremium :: "ModelInfo \<Rightarrow> bool" where
  "isModelPremium model =
     (case (case billing model of None \<Rightarrow> None | Some b \<Rightarrow> is_premium b) of
        Some flag \<Rightarrow> flag = JBoolean True
      | None \<Rightarrow>
          (case (case billing model of None \<Rightarrow> None | Some b \<Rightarrow> multiplier b) of
             None \<Rightarrow> 0
           | Some k \<Rightarrow> k) > 0)"

text \<open>The chat view partitions the available models with it (\<open>toto-chat.tsx\<close>).\<close>

definition freeModels :: "ModelInfo list \<Rightarrow> ModelInfo list" where
  "freeModels availableModels = filter (\<lambda>m. \<not> isModelPremium m) availableModels"

definition premiumModels :: "ModelInfo list \<Rightarrow> ModelInfo list" where
  "premiumModels availableModels = filter (\<lambda>m. isModelPremium m) availableModels"

text \<open>A model whose billing holds only a multiplier, as in the view's fallback list.\<close>

definition multiplier_only :: "jsstring \<Rightarrow> rat \<Rightarrow> ModelInfo" where
  "multiplier_only i k =
     \<lparr>model_id = i, model_name = i,
      billing = Some \<lparr>is_premium = None, multiplier = Some k\<rparr>\<rparr>"

section \<open>Session shim (copilot service, \<open>setupSessionEventListeners\<close>)\<close>

datatype role = User | Assistant

text \<open>
  \<open>isStreaming\<close> is an optional property: \<open>None\<close> when the object literal omits it
  (user messages).
\<close>

record Message =
  msg_id :: jsstring
  role :: role
  content :: jsstring
  timestamp :: nat
  isStreaming :: "bool option"

text \<open>
  The listener looks at two event types of the SDK; every other type falls through both
  tests. \<open>deltaContent\<close> is read as \<open>event.data?.deltaContent || ""\<close>, so it may be missing.
\<close>

datatype SessionEvent =
    AssistantMessageDelta "jsstring option"
  | SessionIdle
  | OtherEvent jsstring

text \<open>
  One chat session as the closures see it: the module-level \<open>currentSessionId\<close>, the
  \<open>sessionId\<close> the listener was registered with, the shared \<open>messages\<close> array, the local
  \<open>isLoading\<close> of \<open>createChatSession\<close> (\<open>chat_isLoading\<close>) and the four locals of
  \<open>setupSessionEventListeners\<close>. \<open>currentAssistantMessage\<close> is a reference to an object
  that was pushed onto \<open>messages\<close>; the array only grows, so the reference is the index of
  that object. \<open>onUpdate_calls\<close> records every call of the update callback with the copy
  of the list it receives, as it reads at that moment. \<open>randomUUID()\<close> and \<open>new Date()\<close>
  are read from two arbitrary sources, \<open>draws\<close> counting the identifiers drawn so far.
\<close>

record chat =
  currentSessionId :: "jsstring option"
  sessionId :: jsstring
  messages :: "Message list"
  onUpdate_calls :: "(Message list \<times> bool) list"
  chat_isLoading :: bool
  isLoading :: bool
  currentAssistantMessage :: "nat option"
  lastDeltaContent :: jsstring
  idleProcessed :: bool
  uuid_src :: "nat \<Rightarrow> jsstring"
  clock_src :: "nat \<Rightarrow> nat"
  draws :: nat

text \<open>\<open>event.data?.deltaContent || ""\<close>: a missing delta reads as the empty string.\<close>

definition delta_text :: "jsstring option \<Rightarrow> jsstring" where
  "delta_text d = (case d of None \<Rightarrow> [] | Some s \<Rightarrow> s)"

text \<open>The branch \<open>event.type === "assistant.message_delta"\<close>.\<close>

definition on_delta :: "jsstring option \<Rightarrow> chat \<Rightarrow> chat" where
  "on_delta d c =
     (let deltaContent = delta_text d in
      if deltaContent = [] then c
      else if deltaContent = lastDeltaContent c \<and> currentAssistantMessage c \<noteq> None then c
      else
        let c1 = c\<lparr>lastDeltaContent := deltaContent\<rparr>;
            c2 = (case currentAssistantMessage c1 of
                    None \<Rightarrow>
                      c1\<lparr>currentAssistantMessage := Some (length (messages c1)),
                         messages := messages c1 @
                           [\<lparr>msg_id = uuid_src c1 (draws c1), role = Assistant, content = [],
                             timestamp = clock_src c1 (draws c1), isStreaming = Some True\<rparr>],
                         draws := Suc (draws c1)\<rparr>
                  | Some _ \<Rightarrow> c1);
            c3 = (case currentAssistantMessage c2 of
                    None \<Rightarrow> c2
                  | Some i \<Rightarrow>
                      c2\<lparr>messages := (messages c2)
                           [i := (messages c2 ! i)
                                   \<lparr>content := content (messages c2 ! i) @ deltaContent\<rparr>]\<rparr>)
        in c3\<lparr>onUpdate_calls := onUpdate_calls c3 @ [(messages c3, isLoading c3)]\<rparr>)"

text \<open>The branch \<open>event.type === "session.idle"\<close>.\<close>

definition on_idle :: "chat \<Rightarrow> chat" where
  "on_idle c =
     (if idleProcessed c then c
      else
        let c1 = c\<lparr>idleProcessed := True\<rparr>;
            c2 = (case currentAssistantMessage c1 of
                    None \<Rightarrow> c1
                  | Some i \<Rightarrow>
                      c1\<lparr>messages := (messages c1)
                           [i := (messages c1 ! i)\<lparr>isStreaming := Some False\<rparr>],
                         currentAssistantMessage := None\<rparr>);
            c3 = c2\<lparr>isLoading := False, lastDeltaContent := []\<rparr>
        in c3\<lparr>onUpdate_calls := onUpdate_calls c3 @ [(messages c3, isLoading c3)]\<rparr>)"

text \<open>The callback passed to \<open>session.on\<close>.\<close>

definition session_listener :: "SessionEvent \<Rightarrow> chat \<Rightarrow> chat" where
  "session_listener event c =
     (if currentSessionId c \<noteq> Some (sessionId c) then c
      else case event of
             AssistantMessageDelta d \<Rightarrow> on_delta d c
           | SessionIdle \<Rightarrow> on_idle c
           | OtherEvent _ \<Rightarrow> c)"

definition resetState :: "chat \<Rightarrow> chat" where
  "resetState c =
     c\<lparr>currentAssistantMessage := None, lastDeltaContent := [],
       idleProcessed := False, isLoading := True\<rparr>"

text \<open>
  \<open>sendMessage\<close> up to its \<open>await\<close>; the closures returned by \<open>createChatSession\<close> and by
  \<open>resumeChatSession\<close> have the same body.
\<close>

definition userMessage :: "jsstring \<Rightarrow> chat \<Rightarrow> Message" where
  "userMessage prompt c =
     \<lparr>msg_id = uuid_src c (draws c), role = User, content = prompt,
      timestamp = clock_src c (draws c), isStreaming = None\<rparr>"

definition sendMessage_sync :: "jsstring \<Rightarrow> chat \<Rightarrow> chat" where
  "sendMessage_sync prompt c =
     (let c1 = c\<lparr>messages := messages c @ [userMessage prompt c], draws := Suc (draws c)\<rparr>;
          c2 = c1\<lparr>chat_isLoading := True\<rparr>;
          c3 = resetState c2
      in c3\<lparr>onUpdate_calls := onUpdate_calls c3 @ [(messages c3, chat_isLoading c3)]\<rparr>)"

text \<open>
  What can happen to the session while \<open>sendAndWait\<close> is pending: the SDK delivers an event
  to the listener, or other code assigns \<open>currentSessionId\<close> (a session is created or
  resumed, or \<open>stopClient\<close> sets it to \<open>null\<close>).
\<close>

datatype activity = Deliver SessionEvent | SessionChanged "jsstring option"

fun activity_step :: "activity \<Rightarrow> chat \<Rightarrow> chat" where
  "activity_step (Deliver event) c = session_listener event c"
| "activity_step (SessionChanged s) c = c\<lparr>currentSessionId := s\<rparr>"

fun run_activities :: "activity list \<Rightarrow> chat \<Rightarrow> chat" where
  "run_activities [] c = c"
| "run_activities (a # as) c = run_activities as (activity_step a c)"

text \<open>
  The whole of \<open>sendMessage\<close>: \<open>during\<close> is what happens while the vendor call is pending,
  \<open>failure\<close> the message it rejects with, if it does; the rejection propagates.
\<close>

definition sendMessage ::
    "activity list \<Rightarrow> jsstring option \<Rightarrow> jsstring \<Rightarrow> chat \<Rightarrow> (jsstring + unit) \<times> chat" where
  "sendMessage during failure prompt c =
     (let c1 = sendMessage_sync prompt c;
          c2 = run_activities during c1
      in (case failure of Some e \<Rightarrow> Inl e | None \<Rightarrow> Inr (), c2))"

text \<open>A history of one session: calls of \<open>sendMessage\<close> and what happens between them.\<close>

datatype action = Send jsstring | Act activity

fun step :: "action \<Rightarrow> chat \<Rightarrow> chat" where
  "step (Send prompt) c = sendMessage_sync prompt c"
| "step (Act a) c = activity_step a c"

fun run :: "action list \<Rightarrow> chat \<Rightarrow> chat" where
  "run [] c = c"
| "run (s # ss) c = run ss (step s c)"

text \<open>
  The closure state when \<open>createChatSession\<close> (or \<open>resumeChatSession\<close>) returns: the
  correlation identifier is a fresh UUID, stored in \<open>currentSessionId\<close> and captured by the
  listener; the list is empty and every flag is off.
\<close>

definition createChatSession :: "(nat \<Rightarrow> jsstring) \<Rightarrow> (nat \<Rightarrow> nat) \<Rightarrow> chat" where
  "createChatSession uuids clock =
     \<lparr>currentSessionId = Some (uuids 0), sessionId = uuids 0, messages = [],
      onUpdate_calls = [], chat_isLoading = False, isLoading = False,
      currentAssistantMessage = None, lastDeltaContent = [], idleProcessed = False,
      uuid_src = uuids, clock_src = clock, draws = 1\<rparr>"

text \<open>The messages still flagged as streaming.\<close>

definition streaming :: "Message list \<Rightarrow> Message list" where
  "streaming ms = filter (\<lambda>m. role m = Assistant \<and> isStreaming m = Some True) ms"

section \<open>Availability probe (copilot status)\<close>

text \<open>
  The host the probe runs on: the file system as \<open>existsSync\<close> sees it, \<open>os.homedir()\<close>,
  \<open>path.join\<close>, \<open>process.env.PATH\<close>, and \<open>execAsync\<close>, which maps a command line and the
  \<open>PATH\<close> it is given to its outcome. The promise of \<open>exec\<close> is rejected when the process
  cannot be spawned or exits non-zero; the rejection value is an \<open>Error\<close> with a message,
  the \<open>catch\<close> blocks also handling any other value.
\<close>

datatype thrown = ErrorInstance jsstring | NotAnError

datatype exec_outcome = Succeeds jsstring jsstring | Throws thrown

record host =
  existsSync :: "jsstring \<Rightarrow> bool"
  homedir :: jsstring
  path_join :: "jsstring list \<Rightarrow> jsstring"
  env_PATH :: "jsstring option"
  execAsync :: "jsstring \<Rightarrow> jsstring \<Rightarrow> exec_outcome"

text \<open>What a probe did on the host, in order: paths tested, commands run (with their PATH).\<close>

datatype effect = Probed jsstring | Spawned jsstring jsstring

fun spawned :: "effect list \<Rightarrow> (jsstring \<times> jsstring) list" where
  "spawned [] = []"
| "spawned (Probed p # fx) = spawned fx"
| "spawned (Spawned cmd path # fx) = (cmd, path) # spawned fx"

definition COPILOT_PATHS :: "host \<Rightarrow> jsstring list" where
  "COPILOT_PATHS h =
     [js ''/opt/homebrew/bin/copilot'', js ''/usr/local/bin/copilot'',
      path_join h [homedir h, js ''.local/bin/copilot'']]"

definition GH_PATHS :: "host \<Rightarrow> jsstring list" where
  "GH_PATHS h =
     [js ''/opt/homebrew/bin/gh'', js ''/usr/local/bin/gh'',
      path_join h [homedir h, js ''.local/bin/gh'']]"

fun findExecutable :: "host \<Rightarrow> jsstring list \<Rightarrow> jsstring option \<times> effect list" where
  "findExecutable h [] = (None, [])"
| "findExecutable h (p # ps) =
     (if existsSync h p then (Some p, [Probed p])
      else (case findExecutable h ps of (r, fx) \<Rightarrow> (r, Probed p # fx)))"

definition getCopilotPath :: "host \<Rightarrow> jsstring option \<times> effect list" where
  "getCopilotPath h = findExecutable h (COPILOT_PATHS h)"

definition getGhPath :: "host \<Rightarrow> jsstring option \<times> effect list" where
  "getGhPath h = findExecutable h (GH_PATHS h)"

text \<open>\<open>Array.prototype.join\<close> with a separator.\<close>

fun join_with :: "jsstring \<Rightarrow> jsstring list \<Rightarrow> jsstring" where
  "join_with sep [] = []"
| "join_with sep [x] = x"
| "join_with sep (x # y # ys) = x @ sep @ join_with sep (y # ys)"

definition getExtendedPath :: "host \<Rightarrow> jsstring" where
  "getExtendedPath h =
     join_with (js '':'')
       [js ''/opt/homebrew/bin'', js ''/usr/local/bin'',
        path_join h [homedir h, js ''.local/bin''],
        (case env_PATH h of None \<Rightarrow> [] | Some p \<Rightarrow> p)]"

definition execWithPath :: "host \<Rightarrow> jsstring \<Rightarrow> exec_outcome \<times> effect list" where
  "execWithPath h command =
     (execAsync h command (getExtendedPath h), [Spawned command (getExtendedPath h)])"

text \<open>
  \<open>String.prototype.trim\<close> strips white space and line terminators from both ends: TAB,
  LF, VT, FF, CR, the space, NBSP, the BOM and the other space separators of Unicode.
\<close>

definition is_whitespace :: "16 word \<Rightarrow> bool" where
  "is_whitespace u \<longleftrightarrow>
     u \<in> set [0x09, 0x0A, 0x0B, 0x0C, 0x0D, 0x20, 0xA0, 0x1680, 0x2028, 0x2029, 0x202F,
              0x205F, 0x3000, 0xFEFF]
     \<or> (0x2000 \<le> u \<and> u \<le> 0x200A)"

definition trim :: "jsstring \<Rightarrow> jsstring" where
  "trim s = rev (dropWhile is_whitespace (rev (dropWhile is_whitespace s)))"

text \<open>\<open>String.prototype.includes\<close>.\<close>

fun includes_str :: "jsstring \<Rightarrow> jsstring \<Rightarrow> bool" where
  "includes_str [] needle = (needle = [])"
| "includes_str (u # us) needle = (prefix needle (u # us) \<or> includes_str us needle)"

text \<open>The double quote, and the second marker of the login check (U+00E2 U+0153 U+201C).\<close>

definition dquote :: jsstring where
  "dquote = [0x22]"

definition checkmark_marker :: jsstring where
  "checkmark_marker = [0xE2, 0x153, 0x201C]"

record install_status =
  installed :: bool
  version :: "jsstring option"
  install_error :: "jsstring option"

definition isCopilotCliInstalled :: "host \<Rightarrow> install_status \<times> effect list" where
  "isCopilotCliInstalled h =
     (case getCopilotPath h of
        (None, fx) \<Rightarrow>
          (\<lparr>installed = False, version = None,
            install_error = Some (js ''Copilot CLI not found in common locations'')\<rparr>, fx)
      | (Some copilotPath, fx) \<Rightarrow>
          (case execWithPath h (dquote @ copilotPath @ dquote @ js '' --version'') of
             (Succeeds stdout stderr, fx') \<Rightarrow>
               (\<lparr>installed = True, version = Some (trim stdout), install_error = None\<rparr>,
                fx @ fx')
           | (Throws e, fx') \<Rightarrow>
               (\<lparr>installed = False, version = None,
                 install_error =
                   Some (case e of ErrorInstance m \<Rightarrow> m | NotAnError \<Rightarrow> js ''Unknown error'')\<rparr>,
                fx @ fx')))"

record login_status =
  loggedIn :: bool
  login_error :: "jsstring option"

definition isCopilotLoggedIn :: "host \<Rightarrow> login_status \<times> effect list" where
  "isCopilotLoggedIn h =
     (case getGhPath h of
        (None, fx) \<Rightarrow>
          (let copilotConfigPath = path_join h [homedir h, js ''.copilot'', js ''config.json'']
           in if existsSync h copilotConfigPath
              then (\<lparr>loggedIn = True, login_error = None\<rparr>, fx @ [Probed copilotConfigPath])
              else (\<lparr>loggedIn = False, login_error = Some (js ''GitHub CLI (gh) not found'')\<rparr>,
                    fx @ [Probed copilotConfigPath]))
      | (Some ghPath, fx) \<Rightarrow>
          (case execWithPath h (dquote @ ghPath @ dquote @ js '' auth status'') of
             (Succeeds stdout stderr, fx') \<Rightarrow>
               (let output = stdout @ stderr
                in if includes_str output (js ''Logged in'') \<or> includes_str output checkmark_marker
                   then (\<lparr>loggedIn = True, login_error = None\<rparr>, fx @ fx')
                   else (\<lparr>loggedIn = True, login_error = None\<rparr>, fx @ fx'))
           | (Throws e, fx') \<Rightarrow>
               (\<lparr>loggedIn = False,
                 login_error =
                   Some (case e of ErrorInstance m \<Rightarrow> m
                         | NotAnError \<Rightarrow> js ''Not logged in to GitHub'')\<rparr>,
                fx @ fx')))"

record CopilotStatus =
  isInstalled :: bool
  isLoggedIn :: bool
  status_version :: "jsstring option"
  status_error :: "jsstring option"

definition getCopilotStatus :: "host \<Rightarrow> CopilotStatus \<times> effect list" where
  "getCopilotStatus h =
     (case isCopilotCliInstalled h of
        (installStatus, fx) \<Rightarrow>
          if \<not> installed installStatus
          then (\<lparr>isInstalled = False, isLoggedIn = False, status_version = None,
                 status_error = install_error installStatus\<rparr>, fx)
          else (case isCopilotLoggedIn h of
                  (loginStatus, fx') \<Rightarrow>
                    (\<lparr>isInstalled = True, isLoggedIn = loggedIn loginStatus,
                      status_version = version installStatus,
                      status_error = login_error loginStatus\<rparr>, fx @ fx')))"

text \<open>
  A run of delta events, and the fragments the listener takes from it: the texts of the
  deltas that are not empty.
\<close>

definition deltas :: "jsstring option list \<Rightarrow> activity list" where
  "deltas ds = map (\<lambda>d. Deliver (AssistantMessageDelta d)) ds"

definition fragments :: "jsstring option list \<Rightarrow> jsstring list" where
  "fragments ds = filter (\<lambda>t. t \<noteq> []) (map delta_text ds)"

text \<open>The number of user messages in a list.\<close>

definition user_messages :: "Message list \<Rightarrow> nat" where
  "user_messages ms = length (filter (\<lambda>m. role m = User) ms)"

text \<open>
  The messages below \<open>n\<close> are out of the listener's reach: they exist, and the message in
  progress, if any, is not among them.
\<close>

definition out_of_reach :: "nat \<Rightarrow> chat \<Rightarrow> bool" where
  "out_of_reach n c \<longleftrightarrow>
     n \<le> length (messages c) \<and> (\<forall>i. currentAssistantMessage c = Some i \<longrightarrow> n \<le> i)"

text \<open>
  The reference held in \<open>currentAssistantMessage\<close> points at an assistant message of the
  list.
\<close>

definition tracked :: "chat \<Rightarrow> bool" where
  "tracked c \<longleftrightarrow>
     (\<forall>i. currentAssistantMessage c = Some i \<longrightarrow>
        i < length (messages c) \<and> role (messages c ! i) = Assistant)"

text \<open>A session for examples, and a delta event with an ASCII text.\<close>

definition demo_chat :: chat where
  "demo_chat = createChatSession (\<lambda>n. js (replicate (Suc n) CHR ''u'')) (\<lambda>n. 1000 + n)"

definition delta :: "string \<Rightarrow> activity" where
  "delta s = Deliver (AssistantMessageDelta (Some (js s)))"

text \<open>
  A host for examples: one path exists, \<open>path.join\<close> glues its arguments with a slash,
  and every command has the given outcome.
\<close>

definition demo_host :: "jsstring \<Rightarrow> exec_outcome \<Rightarrow> host" where
  "demo_host present outcome =
     \<lparr>existsSync = (\<lambda>p. p = present), homedir = js ''/Users/me'',
      path_join = join_with (js ''/''), env_PATH = Some (js ''/usr/bin''),
      execAsync = (\<lambda>cmd path. outcome)\<rparr>"

section \<open>Model tiers\<close>

lemma isModelPremium_multiplier_only: "isModelPremium (multiplier_only i k) \<longleftrightarrow> k > 0"
  by (simp add: isModelPremium_def multiplier_only_def)

text \<open>
  C1, as stated, fails: three models with multipliers 1, 1 and 10 and no premium flag are
  not split into two free models and one premium model.
\<close>

theorem isModelPremium_partition_counterexample:
  "\<not> (freeModels [multiplier_only (js ''a'') 1, multiplier_only (js ''b'') 1,
                   multiplier_only (js ''c'') 10]
        = [multiplier_only (js ''a'') 1, multiplier_only (js ''b'') 1]
      \<and> premiumModels [multiplier_only (js ''a'') 1, multiplier_only (js ''b'') 1,
                        multiplier_only (js ''c'') 10]
        = [multiplier_only (js ''c'') 10])"
  by (simp add: freeModels_def premiumModels_def isModelPremium_multiplier_only)

text \<open>
  C1, amended. A model whose billing carries an \<open>is_premium\<close> value is premium exactly when
  that value is \<open>true\<close>, whatever the multiplier. Without it, a model is premium exactly
  when its multiplier is above zero (a missing multiplier or billing counts as zero). So
  models with multipliers 1, 1 and 10 and no flag are all three premium and none is free.
\<close>

theorem isModelPremium_classification:
  "(billing m = Some b \<and> is_premium b = Some flag \<longrightarrow>
      isModelPremium m = (flag = JBoolean True))
   \<and> (billing m = Some b \<and> is_premium b = None \<longrightarrow>
        isModelPremium m = (case multiplier b of None \<Rightarrow> False | Some k \<Rightarrow> k > 0))
   \<and> (billing m = None \<longrightarrow> \<not> isModelPremium m)
   \<and> freeModels [multiplier_only i1 1, multiplier_only i2 1, multiplier_only i3 10] = []
   \<and> premiumModels [multiplier_only i1 1, multiplier_only i2 1, multiplier_only i3 10]
        = [multiplier_only i1 1, multiplier_only i2 1, multiplier_only i3 10]"
  by (simp add: isModelPremium_def freeModels_def premiumModels_def multiplier_only_def
      split: option.splits)

theorem isModelPremium_classification_witness:
  "\<not> isModelPremium \<lparr>model_id = js ''x'', model_name = js ''X'',
        billing = Some \<lparr>is_premium = Some (JBoolean False), multiplier = Some 10\<rparr>\<rparr>
   \<and> isModelPremium \<lparr>model_id = js ''y'', model_name = js ''Y'',
        billing = Some \<lparr>is_premium = Some (JBoolean True), multiplier = Some 0\<rparr>\<rparr>
   \<and> isModelPremium \<lparr>model_id = js ''z'', model_name = js ''Z'',
        billing = Some \<lparr>is_premium = None, multiplier = Some 1\<rparr>\<rparr>
   \<and> \<not> isModelPremium \<lparr>model_id = js ''w'', model_name = js ''W'', billing = None\<rparr>"
  using
    isModelPremium_classification
      [of "\<lparr>model_id = js ''x'', model_name = js ''X'',
            billing = Some \<lparr>is_premium = Some (JBoolean False), multiplier = Some 10\<rparr>\<rparr>"
          "\<lparr>is_premium = Some (JBoolean False), multiplier = Some 10\<rparr>" "JBoolean False"]
    isModelPremium_classification
      [of "\<lparr>model_id = js ''y'', model_name = js ''Y'',
            billing = Some \<lparr>is_premium = Some (JBoolean True), multiplier = Some 0\<rparr>\<rparr>"
          "\<lparr>is_premium = Some (JBoolean True), multiplier = Some 0\<rparr>" "JBoolean True"]
    isModelPremium_classification
      [of "\<lparr>model_id = js ''z'', model_name = js ''Z'',
            billing = Some \<lparr>is_premium = None, multiplier = Some 1\<rparr>\<rparr>"
          "\<lparr>is_premium = None, multiplier = Some 1\<rparr>"]
    isModelPremium_classification
      [of "\<lparr>model_id = js ''w'', model_name = js ''W'', billing = None\<rparr>"]
  by simp

section \<open>JavaScript strings: the embedding of literals\<close>

lemma unat_of_char: "unat (of_char c :: 16 word) = of_char c"
proof -
  have "(of_char c :: nat) mod 256 = of_char c" by simp
  then have "(of_char c :: nat) < 256"
    by (metis mod_less_divisor zero_less_numeral)
  moreover have "(256 :: nat) \<le> 2 ^ LENGTH(16)" by simp
  ultimately have lt: "(of_char c :: nat) < 2 ^ LENGTH(16)" by (rule less_le_trans)
  have "unat (of_nat (of_char c) :: 16 word) = of_char c"
    using lt by (simp add: unat_of_nat)
  then show ?thesis
    by (simp only: of_nat_of_char)
qed

lemma js_inject: "js a = js b \<longleftrightarrow> a = b"
proof
  assume "js a = js b"
  then have "map unat (js a) = map unat (js b)" by simp
  then have "map (of_char :: char \<Rightarrow> nat) a = map of_char b"
    by (simp add: js_def unat_of_char comp_def)
  then show "a = b"
    by (simp add: inj_of_char)
qed simp

lemma js_Nil_iff: "js a = [] \<longleftrightarrow> a = []"
  unfolding js_def by simp

lemma Nil_js_iff: "[] = js a \<longleftrightarrow> a = []"
  unfolding js_def by auto

lemma js_append: "js a @ js b = js (a @ b)"
  unfolding js_def by simp

section \<open>The availability probe: locating and running the executables\<close>

lemma findExecutable_fst: "fst (findExecutable h ps) = List.find (existsSync h) ps"
  by (induction ps) (auto split: prod.splits)

lemma findExecutable_spawned: "spawned (snd (findExecutable h ps)) = []"
  by (induction ps) (auto split: prod.splits)

lemma findExecutable_none:
  "\<forall>p\<in>set ps. \<not> existsSync h p \<Longrightarrow> findExecutable h ps = (None, map Probed ps)"
  by (induction ps) auto

lemma spawned_Probed: "spawned (map Probed ps) = []"
  by (induction ps) auto

lemma spawned_append: "spawned (fx @ fx') = spawned fx @ spawned fx'"
  by (induction fx rule: spawned.induct) auto

lemma fst_installed_absent:
  "\<forall>p\<in>set (COPILOT_PATHS h). \<not> existsSync h p \<Longrightarrow>
   fst (isCopilotCliInstalled h) =
     \<lparr>installed = False, version = None,
      install_error = Some (js ''Copilot CLI not found in common locations'')\<rparr>"
  by (simp add: isCopilotCliInstalled_def getCopilotPath_def findExecutable_none)

lemma fst_installed_found:
  assumes "List.find (existsSync h) (COPILOT_PATHS h) = Some p"
  shows "fst (isCopilotCliInstalled h) =
     (case execAsync h (dquote @ p @ dquote @ js '' --version'') (getExtendedPath h) of
        Succeeds out err \<Rightarrow>
          \<lparr>installed = True, version = Some (trim out), install_error = None\<rparr>
      | Throws e \<Rightarrow>
          \<lparr>installed = False, version = None,
           install_error =
             Some (case e of ErrorInstance m \<Rightarrow> m | NotAnError \<Rightarrow> js ''Unknown error'')\<rparr>)"
proof -
  obtain fx where "getCopilotPath h = (Some p, fx)"
    using assms findExecutable_fst [of h "COPILOT_PATHS h"]
    by (cases "findExecutable h (COPILOT_PATHS h)") (simp add: getCopilotPath_def)
  then show ?thesis
    by (simp add: isCopilotCliInstalled_def execWithPath_def split: exec_outcome.splits)
qed

lemma fst_loggedIn_absent:
  "\<forall>p\<in>set (GH_PATHS h). \<not> existsSync h p \<Longrightarrow>
   fst (isCopilotLoggedIn h) =
     (if existsSync h (path_join h [homedir h, js ''.copilot'', js ''config.json''])
      then \<lparr>loggedIn = True, login_error = None\<rparr>
      else \<lparr>loggedIn = False, login_error = Some (js ''GitHub CLI (gh) not found'')\<rparr>)"
  by (simp add: isCopilotLoggedIn_def getGhPath_def findExecutable_none Let_def)

lemma demo_COPILOT_PATHS:
  "COPILOT_PATHS (demo_host x y) =
     [js ''/opt/homebrew/bin/copilot'', js ''/usr/local/bin/copilot'',
      js ''/Users/me/.local/bin/copilot'']"
  by (simp add: COPILOT_PATHS_def demo_host_def js_append)

lemma demo_GH_PATHS:
  "GH_PATHS (demo_host x y) =
     [js ''/opt/homebrew/bin/gh'', js ''/usr/local/bin/gh'', js ''/Users/me/.local/bin/gh'']"
  by (simp add: GH_PATHS_def demo_host_def js_append)

lemma demo_config:
  "path_join (demo_host x y) [homedir (demo_host x y), js ''.copilot'', js ''config.json'']
     = js ''/Users/me/.copilot/config.json''"
  by (simp add: demo_host_def js_append)

lemma demo_existsSync: "existsSync (demo_host x y) p \<longleftrightarrow> p = x"
  by (simp add: demo_host_def)

lemma demo_execAsync: "execAsync (demo_host x y) cmd path = y"
  by (simp add: demo_host_def)

lemma isCopilotLoggedIn_effects: "snd (isCopilotLoggedIn h) \<noteq> []"
  by (simp add: isCopilotLoggedIn_def execWithPath_def Let_def
      split: prod.splits option.splits exec_outcome.splits)

text \<open>
  C8. When no candidate path of the Copilot CLI exists, \<open>isCopilotCliInstalled\<close> reports
  not installed with the reason "Copilot CLI not found in common locations", having only
  tested the candidate paths: no command is run. When \<open>p\<close> is the first candidate that
  exists, it runs exactly one command, \<open>"p" --version\<close> with the extended PATH; if that
  succeeds the result is installed with the trimmed standard output as version, and if it
  throws the result is not installed with the error's message (or "Unknown error").
\<close>

theorem isCopilotCliInstalled_cases:
  "((\<forall>p\<in>set (COPILOT_PATHS h). \<not> existsSync h p) \<longrightarrow>
      isCopilotCliInstalled h =
        (\<lparr>installed = False, version = None,
          install_error = Some (js ''Copilot CLI not found in common locations'')\<rparr>,
         map Probed (COPILOT_PATHS h))
      \<and> spawned (snd (isCopilotCliInstalled h)) = [])
   \<and> (List.find (existsSync h) (COPILOT_PATHS h) = Some p \<longrightarrow>
        spawned (snd (isCopilotCliInstalled h)) =
          [(dquote @ p @ dquote @ js '' --version'', getExtendedPath h)]
        \<and> (\<forall>out err.
              execAsync h (dquote @ p @ dquote @ js '' --version'') (getExtendedPath h)
                = Succeeds out err \<longrightarrow>
              fst (isCopilotCliInstalled h) =
                \<lparr>installed = True, version = Some (trim out), install_error = None\<rparr>)
        \<and> (\<forall>e.
              execAsync h (dquote @ p @ dquote @ js '' --version'') (getExtendedPath h)
                = Throws e \<longrightarrow>
              fst (isCopilotCliInstalled h) =
                \<lparr>installed = False, version = None,
                 install_error =
                   Some (case e of ErrorInstance m \<Rightarrow> m | NotAnError \<Rightarrow> js ''Unknown error'')\<rparr>))"
proof (intro conjI impI allI)
  assume none: "\<forall>p\<in>set (COPILOT_PATHS h). \<not> existsSync h p"
  then show "isCopilotCliInstalled h =
        (\<lparr>installed = False, version = None,
          install_error = Some (js ''Copilot CLI not found in common locations'')\<rparr>,
         map Probed (COPILOT_PATHS h))"
    by (simp add: isCopilotCliInstalled_def getCopilotPath_def findExecutable_none)
  then show "spawned (snd (isCopilotCliInstalled h)) = []"
    by (simp add: spawned_Probed)
next
  assume found: "List.find (existsSync h) (COPILOT_PATHS h) = Some p"
  obtain fx where gp: "getCopilotPath h = (Some p, fx)" and sp: "spawned fx = []"
    using found findExecutable_fst [of h "COPILOT_PATHS h"]
      findExecutable_spawned [of h "COPILOT_PATHS h"]
    by (cases "findExecutable h (COPILOT_PATHS h)") (simp add: getCopilotPath_def)
  show "spawned (snd (isCopilotCliInstalled h)) =
          [(dquote @ p @ dquote @ js '' --version'', getExtendedPath h)]"
    using gp sp
    by (simp add: isCopilotCliInstalled_def execWithPath_def spawned_append
        split: exec_outcome.splits)
  { fix out err
    assume "execAsync h (dquote @ p @ dquote @ js '' --version'') (getExtendedPath h)
                = Succeeds out err"
    then show "fst (isCopilotCliInstalled h) =
                \<lparr>installed = True, version = Some (trim out), install_error = None\<rparr>"
      using gp by (simp add: isCopilotCliInstalled_def execWithPath_def) }
  { fix e
    assume "execAsync h (dquote @ p @ dquote @ js '' --version'') (getExtendedPath h)
                = Throws e"
    then show "fst (isCopilotCliInstalled h) =
                \<lparr>installed = False, version = None,
                 install_error =
                   Some (case e of ErrorInstance m \<Rightarrow> m | NotAnError \<Rightarrow> js ''Unknown error'')\<rparr>"
      using gp by (simp add: isCopilotCliInstalled_def execWithPath_def) }
qed

theorem isCopilotCliInstalled_cases_witness:
  "filter (existsSync (demo_host [] (Throws NotAnError)))
     (COPILOT_PATHS (demo_host [] (Throws NotAnError))) = []
   \<and> fst (isCopilotCliInstalled (demo_host [] (Throws NotAnError))) =
        \<lparr>installed = False, version = None,
         install_error = Some (js ''Copilot CLI not found in common locations'')\<rparr>
   \<and> spawned (snd (isCopilotCliInstalled (demo_host [] (Throws NotAnError)))) = []
   \<and> List.find
        (existsSync (demo_host (js ''/usr/local/bin/copilot'') (Succeeds (js ''1.0.3'' @ [0x0A]) [])))
        (COPILOT_PATHS (demo_host (js ''/usr/local/bin/copilot'') (Succeeds (js ''1.0.3'' @ [0x0A]) [])))
        = Some (js ''/usr/local/bin/copilot'')
   \<and> fst (isCopilotCliInstalled
              (demo_host (js ''/usr/local/bin/copilot'') (Succeeds (js ''1.0.3'' @ [0x0A]) []))) =
        \<lparr>installed = True, version = Some (js ''1.0.3''), install_error = None\<rparr>
   \<and> fst (isCopilotCliInstalled
              (demo_host (js ''/usr/local/bin/copilot'') (Throws (ErrorInstance (js ''spawn failed''))))) =
        \<lparr>installed = False, version = None, install_error = Some (js ''spawn failed'')\<rparr>"
proof -
  let ?h0 = "demo_host [] (Throws NotAnError)"
  let ?h1 = "demo_host (js ''/usr/local/bin/copilot'') (Succeeds (js ''1.0.3'' @ [0x0A]) [])"
  let ?h2 = "demo_host (js ''/usr/local/bin/copilot'') (Throws (ErrorInstance (js ''spawn failed'')))"
  have none: "\<forall>p\<in>set (COPILOT_PATHS ?h0). \<not> existsSync ?h0 p"
    by (simp add: demo_COPILOT_PATHS demo_existsSync js_inject Nil_js_iff js_Nil_iff)
  have found: "List.find (existsSync (demo_host (js ''/usr/local/bin/copilot'') y))
        (COPILOT_PATHS (demo_host (js ''/usr/local/bin/copilot'') y))
        = Some (js ''/usr/local/bin/copilot'')" for y
    by (simp add: demo_COPILOT_PATHS demo_existsSync js_inject Nil_js_iff js_Nil_iff)
  have tr: "trim (js ''1.0.3'' @ [0x0A]) = js ''1.0.3''"
    by (simp add: trim_def js_def is_whitespace_def)
  note absent = isCopilotCliInstalled_cases [of ?h0, THEN conjunct1, THEN mp, OF none]
  note present1 = isCopilotCliInstalled_cases [of ?h1, THEN conjunct2, THEN mp, OF found]
  note present2 = isCopilotCliInstalled_cases [of ?h2, THEN conjunct2, THEN mp, OF found]
  have ok: "fst (isCopilotCliInstalled ?h1) =
      \<lparr>installed = True, version = Some (js ''1.0.3''), install_error = None\<rparr>"
    using present1 [THEN conjunct2, THEN conjunct1, THEN spec, THEN spec, THEN mp, OF demo_execAsync]
    by (simp only: tr)
  have bad: "fst (isCopilotCliInstalled ?h2) =
      \<lparr>installed = False, version = None, install_error = Some (js ''spawn failed'')\<rparr>"
    using present2 [THEN conjunct2, THEN conjunct2, THEN spec, THEN mp, OF demo_execAsync]
    by simp
  have none': "filter (existsSync ?h0) (COPILOT_PATHS ?h0) = []"
    using none by (simp add: filter_empty_conv)
  from none' absent found [of "Succeeds (js ''1.0.3'' @ [0x0A]) []"] ok bad
  show ?thesis by (simp add: spawned_Probed)
qed

text \<open>
  C4. When \<open>p\<close> is the first candidate path of \<open>gh\<close> that exists, \<open>isCopilotLoggedIn\<close> runs
  exactly one command, \<open>"p" auth status\<close>: if it exits zero the result is logged in with no
  error, whatever it printed; if it throws (spawn failure or non-zero exit) the result is
  not logged in with the error's message (or "Not logged in to GitHub"); so the result is
  logged in exactly when the command succeeded. When no candidate path exists, no command
  is run, and the result is logged in if the Copilot config file exists, and otherwise not
  logged in with the reason "GitHub CLI (gh) not found".
\<close>

theorem isCopilotLoggedIn_cases:
  "(List.find (existsSync h) (GH_PATHS h) = Some p \<longrightarrow>
      spawned (snd (isCopilotLoggedIn h)) =
        [(dquote @ p @ dquote @ js '' auth status'', getExtendedPath h)]
      \<and> (\<forall>out err.
            execAsync h (dquote @ p @ dquote @ js '' auth status'') (getExtendedPath h)
              = Succeeds out err \<longrightarrow>
            fst (isCopilotLoggedIn h) = \<lparr>loggedIn = True, login_error = None\<rparr>)
      \<and> (\<forall>e.
            execAsync h (dquote @ p @ dquote @ js '' auth status'') (getExtendedPath h)
              = Throws e \<longrightarrow>
            fst (isCopilotLoggedIn h) =
              \<lparr>loggedIn = False,
               login_error =
                 Some (case e of ErrorInstance m \<Rightarrow> m
                       | NotAnError \<Rightarrow> js ''Not logged in to GitHub'')\<rparr>)
      \<and> (loggedIn (fst (isCopilotLoggedIn h)) \<longleftrightarrow>
            (\<exists>out err.
               execAsync h (dquote @ p @ dquote @ js '' auth status'') (getExtendedPath h)
                 = Succeeds out err)))
   \<and> ((\<forall>p\<in>set (GH_PATHS h). \<not> existsSync h p) \<longrightarrow>
        spawned (snd (isCopilotLoggedIn h)) = []
        \<and> fst (isCopilotLoggedIn h) =
            (if existsSync h (path_join h [homedir h, js ''.copilot'', js ''config.json''])
             then \<lparr>loggedIn = True, login_error = None\<rparr>
             else \<lparr>loggedIn = False, login_error = Some (js ''GitHub CLI (gh) not found'')\<rparr>))"
proof (intro conjI impI allI)
  assume none: "\<forall>p\<in>set (GH_PATHS h). \<not> existsSync h p"
  have gp: "getGhPath h = (None, map Probed (GH_PATHS h))"
    using none by (simp add: getGhPath_def findExecutable_none)
  show "spawned (snd (isCopilotLoggedIn h)) = []"
    by (simp add: isCopilotLoggedIn_def gp Let_def spawned_append spawned_Probed)
  show "fst (isCopilotLoggedIn h) =
            (if existsSync h (path_join h [homedir h, js ''.copilot'', js ''config.json''])
             then \<lparr>loggedIn = True, login_error = None\<rparr>
             else \<lparr>loggedIn = False, login_error = Some (js ''GitHub CLI (gh) not found'')\<rparr>)"
    by (simp add: isCopilotLoggedIn_def gp Let_def)
next
  assume found: "List.find (existsSync h) (GH_PATHS h) = Some p"
  obtain fx where gp: "getGhPath h = (Some p, fx)" and sp: "spawned fx = []"
    using found findExecutable_fst [of h "GH_PATHS h"]
      findExecutable_spawned [of h "GH_PATHS h"]
    by (cases "findExecutable h (GH_PATHS h)") (simp add: getGhPath_def)
  show "spawned (snd (isCopilotLoggedIn h)) =
        [(dquote @ p @ dquote @ js '' auth status'', getExtendedPath h)]"
    using gp sp
    by (simp add: isCopilotLoggedIn_def execWithPath_def spawned_append Let_def
        split: exec_outcome.splits)
  { fix out err
    assume "execAsync h (dquote @ p @ dquote @ js '' auth status'') (getExtendedPath h)
              = Succeeds out err"
    then show "fst (isCopilotLoggedIn h) = \<lparr>loggedIn = True, login_error = None\<rparr>"
      using gp by (simp add: isCopilotLoggedIn_def execWithPath_def Let_def) }
  { fix e
    assume "execAsync h (dquote @ p @ dquote @ js '' auth status'') (getExtendedPath h)
              = Throws e"
    then show "fst (isCopilotLoggedIn h) =
              \<lparr>loggedIn = False,
               login_error =
                 Some (case e of ErrorInstance m \<Rightarrow> m
                       | NotAnError \<Rightarrow> js ''Not logged in to GitHub'')\<rparr>"
      using gp by (simp add: isCopilotLoggedIn_def execWithPath_def) }
  show "loggedIn (fst (isCopilotLoggedIn h)) \<longleftrightarrow>
          (\<exists>out err.
             execAsync h (dquote @ p @ dquote @ js '' auth status'') (getExtendedPath h)
               = Succeeds out err)"
    using gp
    by (cases "execAsync h (dquote @ p @ dquote @ js '' auth status'') (getExtendedPath h)")
      (simp_all add: isCopilotLoggedIn_def execWithPath_def Let_def)
qed

theorem isCopilotLoggedIn_cases_witness:
  "List.find (existsSync (demo_host (js ''/opt/homebrew/bin/gh'') (Succeeds (js ''no marker'') [])))
     (GH_PATHS (demo_host (js ''/opt/homebrew/bin/gh'') (Succeeds (js ''no marker'') [])))
     = Some (js ''/opt/homebrew/bin/gh'')
   \<and> \<not> includes_str (js ''no marker'' @ []) (js ''Logged in'')
   \<and> \<not> includes_str (js ''no marker'' @ []) checkmark_marker
   \<and> fst (isCopilotLoggedIn (demo_host (js ''/opt/homebrew/bin/gh'') (Succeeds (js ''no marker'') [])))
       = \<lparr>loggedIn = True, login_error = None\<rparr>
   \<and> fst (isCopilotLoggedIn
             (demo_host (js ''/opt/homebrew/bin/gh'') (Throws (ErrorInstance (js ''exit code 1'')))))
       = \<lparr>loggedIn = False, login_error = Some (js ''exit code 1'')\<rparr>
   \<and> filter (existsSync (demo_host [] (Throws NotAnError)))
         (GH_PATHS (demo_host [] (Throws NotAnError))) = []
   \<and> fst (isCopilotLoggedIn (demo_host [] (Throws NotAnError)))
       = \<lparr>loggedIn = False, login_error = Some (js ''GitHub CLI (gh) not found'')\<rparr>
   \<and> spawned (snd (isCopilotLoggedIn (demo_host [] (Throws NotAnError)))) = []
   \<and> fst (isCopilotLoggedIn (demo_host (js ''/Users/me/.copilot/config.json'') (Throws NotAnError)))
       = \<lparr>loggedIn = True, login_error = None\<rparr>"
proof -
  let ?g1 = "demo_host (js ''/opt/homebrew/bin/gh'') (Succeeds (js ''no marker'') [])"
  let ?g2 = "demo_host (js ''/opt/homebrew/bin/gh'') (Throws (ErrorInstance (js ''exit code 1'')))"
  let ?g3 = "demo_host [] (Throws NotAnError)"
  let ?g4 = "demo_host (js ''/Users/me/.copilot/config.json'') (Throws NotAnError)"
  have found: "List.find (existsSync (demo_host (js ''/opt/homebrew/bin/gh'') y))
        (GH_PATHS (demo_host (js ''/opt/homebrew/bin/gh'') y)) = Some (js ''/opt/homebrew/bin/gh'')"
    for y
    by (simp add: demo_GH_PATHS demo_existsSync)
  have none3: "\<forall>p\<in>set (GH_PATHS ?g3). \<not> existsSync ?g3 p"
    by (simp add: demo_GH_PATHS demo_existsSync js_inject Nil_js_iff js_Nil_iff)
  have none4: "\<forall>p\<in>set (GH_PATHS ?g4). \<not> existsSync ?g4 p"
    by (simp add: demo_GH_PATHS demo_existsSync js_inject Nil_js_iff js_Nil_iff)
  have nomark: "\<not> includes_str (js ''no marker'' @ []) (js ''Logged in'')"
    "\<not> includes_str (js ''no marker'' @ []) checkmark_marker"
    by (simp_all add: js_def checkmark_marker_def)
  note p1 = isCopilotLoggedIn_cases [of ?g1, THEN conjunct1, THEN mp, OF found]
  note p2 = isCopilotLoggedIn_cases [of ?g2, THEN conjunct1, THEN mp, OF found]
  note a3 = isCopilotLoggedIn_cases [of ?g3, THEN conjunct2, THEN mp, OF none3]
  note a4 = isCopilotLoggedIn_cases [of ?g4, THEN conjunct2, THEN mp, OF none4]
  have r1: "fst (isCopilotLoggedIn ?g1) = \<lparr>loggedIn = True, login_error = None\<rparr>"
    using p1 [THEN conjunct2, THEN conjunct1, THEN spec, THEN spec, THEN mp, OF demo_execAsync] .
  have r2: "fst (isCopilotLoggedIn ?g2) = \<lparr>loggedIn = False, login_error = Some (js ''exit code 1'')\<rparr>"
    using p2 [THEN conjunct2, THEN conjunct2, THEN conjunct1, THEN spec, THEN mp, OF demo_execAsync]
    by simp
  have r3: "fst (isCopilotLoggedIn ?g3)
       = \<lparr>loggedIn = False, login_error = Some (js ''GitHub CLI (gh) not found'')\<rparr>"
    using a3 [THEN conjunct2] by (simp add: demo_config demo_existsSync js_inject Nil_js_iff js_Nil_iff)
  have r4: "fst (isCopilotLoggedIn ?g4) = \<lparr>loggedIn = True, login_error = None\<rparr>"
    using a4 [THEN conjunct2] by (simp add: demo_config demo_existsSync)
  have none3': "filter (existsSync ?g3) (GH_PATHS ?g3) = []"
    using none3 by (simp add: filter_empty_conv)
  from found [of "Succeeds (js ''no marker'') []"] nomark r1 r2 none3' r3 a3 [THEN conjunct1] r4
  show ?thesis by blast
qed

text \<open>
  C9. \<open>getCopilotStatus\<close>: when the install check reports not installed, the status is not
  installed and not logged in, with the install check's error, and what was done on the
  host is exactly what the install check did; the login check, which always does something
  on the host (third conjunct), has not run. Otherwise the status is installed, with the
  install check's version and the login check's outcome and error.
\<close>

theorem getCopilotStatus_short_circuit:
  "(\<not> installed (fst (isCopilotCliInstalled h)) \<longrightarrow>
      getCopilotStatus h =
        (\<lparr>isInstalled = False, isLoggedIn = False, status_version = None,
          status_error = install_error (fst (isCopilotCliInstalled h))\<rparr>,
         snd (isCopilotCliInstalled h)))
   \<and> (installed (fst (isCopilotCliInstalled h)) \<longrightarrow>
        getCopilotStatus h =
          (\<lparr>isInstalled = True, isLoggedIn = loggedIn (fst (isCopilotLoggedIn h)),
            status_version = version (fst (isCopilotCliInstalled h)),
            status_error = login_error (fst (isCopilotLoggedIn h))\<rparr>,
           snd (isCopilotCliInstalled h) @ snd (isCopilotLoggedIn h)))
   \<and> snd (isCopilotLoggedIn h) \<noteq> []"
  by (simp add: getCopilotStatus_def isCopilotLoggedIn_effects split: prod.splits)

theorem getCopilotStatus_short_circuit_witness:
  "\<not> installed (fst (isCopilotCliInstalled (demo_host [] (Throws NotAnError))))
   \<and> getCopilotStatus (demo_host [] (Throws NotAnError)) =
        (\<lparr>isInstalled = False, isLoggedIn = False, status_version = None,
          status_error = Some (js ''Copilot CLI not found in common locations'')\<rparr>,
         snd (isCopilotCliInstalled (demo_host [] (Throws NotAnError))))
   \<and> installed (fst (isCopilotCliInstalled
        (demo_host (js ''/usr/local/bin/copilot'') (Succeeds (js ''1.0.3'') []))))
   \<and> fst (getCopilotStatus (demo_host (js ''/usr/local/bin/copilot'') (Succeeds (js ''1.0.3'') []))) =
        \<lparr>isInstalled = True, isLoggedIn = False, status_version = Some (js ''1.0.3''),
         status_error = Some (js ''GitHub CLI (gh) not found'')\<rparr>"
proof -
  let ?h0 = "demo_host [] (Throws NotAnError)"
  let ?h1 = "demo_host (js ''/usr/local/bin/copilot'') (Succeeds (js ''1.0.3'') [])"
  have none: "\<forall>p\<in>set (COPILOT_PATHS ?h0). \<not> existsSync ?h0 p"
    by (simp add: demo_COPILOT_PATHS demo_existsSync js_inject Nil_js_iff js_Nil_iff)
  have i0: "fst (isCopilotCliInstalled ?h0) =
     \<lparr>installed = False, version = None,
      install_error = Some (js ''Copilot CLI not found in common locations'')\<rparr>"
    using none by (rule fst_installed_absent)
  have found: "List.find (existsSync ?h1) (COPILOT_PATHS ?h1) = Some (js ''/usr/local/bin/copilot'')"
    by (simp add: demo_COPILOT_PATHS demo_existsSync js_inject Nil_js_iff js_Nil_iff)
  have tr: "trim (js ''1.0.3'') = js ''1.0.3''"
    by (simp add: trim_def js_def is_whitespace_def)
  have i1: "fst (isCopilotCliInstalled ?h1) =
     \<lparr>installed = True, version = Some (js ''1.0.3''), install_error = None\<rparr>"
    using fst_installed_found [OF found] by (simp add: demo_execAsync tr)
  have nogh: "\<forall>p\<in>set (GH_PATHS ?h1). \<not> existsSync ?h1 p"
    by (simp add: demo_GH_PATHS demo_existsSync js_inject Nil_js_iff js_Nil_iff)
  have l1: "fst (isCopilotLoggedIn ?h1) =
     \<lparr>loggedIn = False, login_error = Some (js ''GitHub CLI (gh) not found'')\<rparr>"
    using fst_loggedIn_absent [OF nogh] by (simp add: demo_config demo_existsSync js_inject Nil_js_iff js_Nil_iff)
  have n0: "\<not> installed (fst (isCopilotCliInstalled ?h0))"
    by (simp add: i0)
  have y1: "installed (fst (isCopilotCliInstalled ?h1))"
    by (simp add: i1)
  have s0: "getCopilotStatus ?h0 =
        (\<lparr>isInstalled = False, isLoggedIn = False, status_version = None,
          status_error = Some (js ''Copilot CLI not found in common locations'')\<rparr>,
         snd (isCopilotCliInstalled ?h0))"
    using getCopilotStatus_short_circuit [of ?h0, THEN conjunct1, THEN mp, OF n0]
    by (simp add: i0)
  have s1: "fst (getCopilotStatus ?h1) =
        \<lparr>isInstalled = True, isLoggedIn = False, status_version = Some (js ''1.0.3''),
         status_error = Some (js ''GitHub CLI (gh) not found'')\<rparr>"
    using getCopilotStatus_short_circuit [of ?h1, THEN conjunct2, THEN conjunct1, THEN mp, OF y1]
    by (simp add: i1 l1)
  from n0 s0 y1 s1 show ?thesis by blast
qed

section \<open>The session shim: single steps\<close>

lemma session_listener_stale:
  "currentSessionId c \<noteq> Some (sessionId c) \<Longrightarrow> session_listener event c = c"
  by (simp add: session_listener_def)

lemma on_delta_empty: "delta_text d = [] \<Longrightarrow> on_delta d c = c"
  by (simp add: on_delta_def Let_def)

lemma on_delta_duplicate:
  "delta_text d = lastDeltaContent c \<Longrightarrow> currentAssistantMessage c = Some i \<Longrightarrow> on_delta d c = c"
  by (simp add: on_delta_def Let_def)

lemma on_delta_first:
  "delta_text d \<noteq> [] \<Longrightarrow> currentAssistantMessage c = None \<Longrightarrow>
   on_delta d c =
     c\<lparr>lastDeltaContent := delta_text d,
       currentAssistantMessage := Some (length (messages c)),
       messages := messages c @
         [\<lparr>msg_id = uuid_src c (draws c), role = Assistant, content = delta_text d,
           timestamp = clock_src c (draws c), isStreaming = Some True\<rparr>],
       draws := Suc (draws c),
       onUpdate_calls := onUpdate_calls c @
         [(messages c @
             [\<lparr>msg_id = uuid_src c (draws c), role = Assistant, content = delta_text d,
               timestamp = clock_src c (draws c), isStreaming = Some True\<rparr>],
           isLoading c)]\<rparr>"
  by (simp add: on_delta_def Let_def)

lemma on_delta_append:
  "delta_text d \<noteq> [] \<Longrightarrow> delta_text d \<noteq> lastDeltaContent c \<Longrightarrow>
   currentAssistantMessage c = Some i \<Longrightarrow>
   on_delta d c =
     c\<lparr>lastDeltaContent := delta_text d,
       messages := (messages c)
         [i := (messages c ! i)\<lparr>content := content (messages c ! i) @ delta_text d\<rparr>],
       onUpdate_calls := onUpdate_calls c @
         [((messages c)
             [i := (messages c ! i)\<lparr>content := content (messages c ! i) @ delta_text d\<rparr>],
           isLoading c)]\<rparr>"
  by (simp add: on_delta_def Let_def)

lemma on_idle_latched: "idleProcessed c \<Longrightarrow> on_idle c = c"
  by (simp add: on_idle_def)

lemma on_idle_fresh:
  "\<not> idleProcessed c \<Longrightarrow>
   on_idle c =
     (case currentAssistantMessage c of
        None \<Rightarrow>
          c\<lparr>idleProcessed := True, isLoading := False, lastDeltaContent := [],
            onUpdate_calls := onUpdate_calls c @ [(messages c, False)]\<rparr>
      | Some i \<Rightarrow>
          c\<lparr>idleProcessed := True,
            messages := (messages c)[i := (messages c ! i)\<lparr>isStreaming := Some False\<rparr>],
            currentAssistantMessage := None, isLoading := False, lastDeltaContent := [],
            onUpdate_calls := onUpdate_calls c @
              [((messages c)[i := (messages c ! i)\<lparr>isStreaming := Some False\<rparr>], False)]\<rparr>)"
  by (simp add: on_idle_def Let_def split: option.splits)

lemma sendMessage_sync_eq:
  "sendMessage_sync prompt c =
     c\<lparr>messages := messages c @ [userMessage prompt c], draws := Suc (draws c),
       chat_isLoading := True, currentAssistantMessage := None, lastDeltaContent := [],
       idleProcessed := False, isLoading := True,
       onUpdate_calls := onUpdate_calls c @ [(messages c @ [userMessage prompt c], True)]\<rparr>"
  by (simp add: sendMessage_sync_def resetState_def Let_def)

lemma listener_idle_active:
  "currentSessionId c = Some (sessionId c) \<Longrightarrow> session_listener SessionIdle c = on_idle c"
  by (simp add: session_listener_def)

lemma on_delta_cases:
  obtains (ignored) "on_delta d c = c"
  | (first) "delta_text d \<noteq> []" "currentAssistantMessage c = None"
  | (append) i where "delta_text d \<noteq> []" "delta_text d \<noteq> lastDeltaContent c"
      "currentAssistantMessage c = Some i"
proof (cases "delta_text d = []")
  case True
  then show ?thesis using ignored by (simp add: on_delta_empty)
next
  case False
  show ?thesis
  proof (cases "currentAssistantMessage c")
    case None
    then show ?thesis using False first by simp
  next
    case (Some i)
    then show ?thesis
      using False append [of i] ignored by (cases "delta_text d = lastDeltaContent c")
        (simp_all add: on_delta_duplicate)
  qed
qed

lemma on_delta_idleProcessed: "idleProcessed (on_delta d c) = idleProcessed c"
  by (cases d c rule: on_delta_cases) (simp_all add: on_delta_first on_delta_append)

lemma on_idle_idleProcessed: "idleProcessed (on_idle c)"
  by (cases "idleProcessed c")
    (simp_all add: on_idle_latched on_idle_fresh split: option.splits)

lemma session_listener_latch:
  "idleProcessed c \<Longrightarrow> idleProcessed (session_listener event c)"
  by (cases event) (simp_all add: session_listener_def on_delta_idleProcessed on_idle_idleProcessed)

lemma activity_step_latch: "idleProcessed c \<Longrightarrow> idleProcessed (activity_step a c)"
  by (cases a) (simp_all add: session_listener_latch)

lemma idle_latched: "idleProcessed c \<Longrightarrow> session_listener SessionIdle c = c"
  by (simp add: session_listener_def on_idle_latched)

lemma idle_twice:
  "session_listener SessionIdle (session_listener SessionIdle c) = session_listener SessionIdle c"
proof (cases "currentSessionId c = Some (sessionId c)")
  case True
  have "idleProcessed (session_listener SessionIdle c)"
    using True by (simp add: listener_idle_active on_idle_idleProcessed)
  then show ?thesis by (rule idle_latched)
next
  case False
  then show ?thesis by (simp add: session_listener_stale)
qed

lemma idles_dropped_when_latched:
  "idleProcessed c \<Longrightarrow>
   run_activities acts c = run_activities (filter (\<lambda>a. a \<noteq> Deliver SessionIdle) acts) c"
proof (induction acts arbitrary: c)
  case Nil
  then show ?case by simp
next
  case (Cons a acts)
  show ?case
  proof (cases "a = Deliver SessionIdle")
    case True
    then show ?thesis using Cons.IH [OF Cons.prems] Cons.prems by (simp add: idle_latched)
  next
    case False
    then show ?thesis
      using Cons.IH [OF activity_step_latch [OF Cons.prems, of a]] by simp
  qed
qed

lemma stale_run:
  "currentSessionId c \<noteq> Some (sessionId c) \<Longrightarrow> run_activities (map Deliver events) c = c"
  by (induction events) (simp_all add: session_listener_stale)

section \<open>The session shim: runs of deltas\<close>

lemma cat_head: "concat (remdups_adj (t # fs)) = t @ concat (tl (remdups_adj (t # fs)))"
  by (metis concat.simps(2) remdups_adj_Cons_alt)

lemma acc_take:
  "l \<noteq> t \<Longrightarrow> concat (tl (remdups_adj (l # t # fs))) = t @ concat (tl (remdups_adj (t # fs)))"
  by (simp add: cat_head)

lemma fragments_Nil [simp]: "fragments [] = []"
  by (simp add: fragments_def)

lemma fragments_Cons:
  "fragments (d # ds) = (if delta_text d = [] then fragments ds else delta_text d # fragments ds)"
  by (simp add: fragments_def)

lemma deltas_Nil [simp]: "deltas [] = []"
  by (simp add: deltas_def)

lemma deltas_Cons [simp]: "deltas (d # ds) = Deliver (AssistantMessageDelta d) # deltas ds"
  by (simp add: deltas_def)

lemma listener_delta_active:
  "currentSessionId c = Some (sessionId c) \<Longrightarrow>
   session_listener (AssistantMessageDelta d) c = on_delta d c"
  by (simp add: session_listener_def)

lemma deltas_extend:
  "currentSessionId c = Some (sessionId c) \<Longrightarrow> currentAssistantMessage c = Some i \<Longrightarrow>
   i < length (messages c) \<Longrightarrow>
   messages (run_activities (deltas ds) c) =
     (messages c)
       [i := (messages c ! i)
          \<lparr>content := content (messages c ! i) @
             concat (tl (remdups_adj (lastDeltaContent c # fragments ds)))\<rparr>]
   \<and> currentAssistantMessage (run_activities (deltas ds) c) = Some i"
proof (induction ds arbitrary: c)
  case Nil
  then show ?case by simp
next
  case (Cons d ds)
  let ?t = "delta_text d"
  consider (empty) "?t = []"
    | (dup) "?t \<noteq> []" "?t = lastDeltaContent c"
    | (new) "?t \<noteq> []" "?t \<noteq> lastDeltaContent c"
    by blast
  then show ?case
  proof cases
    case empty
    then have "session_listener (AssistantMessageDelta d) c = c"
      using Cons.prems by (simp add: listener_delta_active on_delta_empty)
    then show ?thesis
      using Cons.IH [OF Cons.prems] empty by (simp add: fragments_Cons)
  next
    case dup
    then have "session_listener (AssistantMessageDelta d) c = c"
      using Cons.prems by (simp add: listener_delta_active on_delta_duplicate)
    then show ?thesis
      using Cons.IH [OF Cons.prems] dup by (simp add: fragments_Cons)
  next
    case new
    define c' where "c' = session_listener (AssistantMessageDelta d) c"
    have c': "c' = c\<lparr>lastDeltaContent := ?t,
       messages := (messages c)
         [i := (messages c ! i)\<lparr>content := content (messages c ! i) @ ?t\<rparr>],
       onUpdate_calls := onUpdate_calls c @
         [((messages c)
             [i := (messages c ! i)\<lparr>content := content (messages c ! i) @ ?t\<rparr>],
           isLoading c)]\<rparr>"
      unfolding c'_def using Cons.prems new
      by (simp add: listener_delta_active on_delta_append)
    have pre: "currentSessionId c' = Some (sessionId c')" "currentAssistantMessage c' = Some i"
      "i < length (messages c')"
      using Cons.prems by (simp_all add: c')
    have last: "lastDeltaContent c' = ?t" by (simp add: c')
    have msgs: "messages c' =
        (messages c)[i := (messages c ! i)\<lparr>content := content (messages c ! i) @ ?t\<rparr>]"
      by (simp add: c')
    have nth: "messages c' ! i = (messages c ! i)\<lparr>content := content (messages c ! i) @ ?t\<rparr>"
      using Cons.prems by (simp add: msgs)
    have frag: "fragments (d # ds) = ?t # fragments ds"
      using new by (simp add: fragments_Cons)
    have acc: "concat (tl (remdups_adj (lastDeltaContent c # ?t # fragments ds))) =
        ?t @ concat (tl (remdups_adj (?t # fragments ds)))"
      using new by (intro acc_take) simp
    have run: "run_activities (deltas (d # ds)) c = run_activities (deltas ds) c'"
      by (simp add: c'_def)
    show ?thesis
      unfolding run frag acc
      using Cons.IH [OF pre] Cons.prems(3) by (simp add: last msgs)
  qed
qed

lemma deltas_all_empty: "fragments ds = [] \<Longrightarrow> run_activities (deltas ds) c = c"
proof (induction ds arbitrary: c)
  case Nil
  then show ?case by simp
next
  case (Cons d ds)
  then have e: "delta_text d = []" and r: "fragments ds = []"
    by (simp_all add: fragments_Cons split: if_splits)
  have "session_listener (AssistantMessageDelta d) c = c"
    using e by (simp add: session_listener_def on_delta_empty)
  then show ?case using Cons.IH [OF r] by simp
qed

lemma deltas_start:
  "currentSessionId c = Some (sessionId c) \<Longrightarrow> currentAssistantMessage c = None \<Longrightarrow>
   fragments ds \<noteq> [] \<Longrightarrow>
   messages (run_activities (deltas ds) c) =
     messages c @
       [\<lparr>msg_id = uuid_src c (draws c), role = Assistant,
         content = concat (remdups_adj (fragments ds)),
         timestamp = clock_src c (draws c), isStreaming = Some True\<rparr>]
   \<and> currentAssistantMessage (run_activities (deltas ds) c) = Some (length (messages c))"
proof (induction ds arbitrary: c)
  case Nil
  then show ?case by simp
next
  case (Cons d ds)
  let ?t = "delta_text d"
  show ?case
  proof (cases "?t = []")
    case True
    then have same: "session_listener (AssistantMessageDelta d) c = c"
      by (simp add: session_listener_def on_delta_empty)
    have "fragments ds \<noteq> []"
      using Cons.prems(3) True by (simp add: fragments_Cons)
    from Cons.IH [OF Cons.prems(1,2) this] show ?thesis
      using True by (simp add: same fragments_Cons)
  next
    case False
    define c' where "c' = session_listener (AssistantMessageDelta d) c"
    let ?m = "\<lparr>msg_id = uuid_src c (draws c), role = Assistant, content = ?t,
           timestamp = clock_src c (draws c), isStreaming = Some True\<rparr>"
    have c': "c' = c\<lparr>lastDeltaContent := ?t,
       currentAssistantMessage := Some (length (messages c)),
       messages := messages c @ [?m],
       draws := Suc (draws c),
       onUpdate_calls := onUpdate_calls c @ [(messages c @ [?m], isLoading c)]\<rparr>"
      unfolding c'_def using Cons.prems False
      by (simp add: listener_delta_active on_delta_first)
    have pre: "currentSessionId c' = Some (sessionId c')"
      "currentAssistantMessage c' = Some (length (messages c))"
      "length (messages c) < length (messages c')"
      using Cons.prems by (simp_all add: c')
    have run: "run_activities (deltas (d # ds)) c = run_activities (deltas ds) c'"
      by (simp add: c'_def)
    have frag: "fragments (d # ds) = ?t # fragments ds"
      using False by (simp add: fragments_Cons)
    have cat: "concat (remdups_adj (?t # fragments ds)) =
        ?t @ concat (tl (remdups_adj (?t # fragments ds)))"
      by (rule cat_head)
    show ?thesis
      unfolding run frag cat
      using deltas_extend [OF pre, of ds] by (simp add: c')
  qed
qed

lemma on_delta_changes:
  assumes "delta_text d \<noteq> []" "\<not> (delta_text d = lastDeltaContent c \<and> currentAssistantMessage c \<noteq> None)"
  shows "on_delta d c \<noteq> c"
proof -
  have "length (onUpdate_calls (on_delta d c)) = Suc (length (onUpdate_calls c))"
    using assms
    by (cases "currentAssistantMessage c") (auto simp add: on_delta_first on_delta_append)
  then show ?thesis by auto
qed

section \<open>The session shim: what a step cannot reach\<close>

lemma on_delta_frame:
  assumes "out_of_reach n c"
  shows "out_of_reach n (on_delta d c) \<and> take n (messages (on_delta d c)) = take n (messages c)"
  using assms
  by (cases d c rule: on_delta_cases)
    (auto simp add: out_of_reach_def on_delta_first on_delta_append)

lemma on_idle_frame:
  assumes "out_of_reach n c"
  shows "out_of_reach n (on_idle c) \<and> take n (messages (on_idle c)) = take n (messages c)"
  using assms
  by (cases "idleProcessed c")
    (auto simp add: out_of_reach_def on_idle_latched on_idle_fresh split: option.splits)

lemma activity_step_frame:
  assumes "out_of_reach n c"
  shows "out_of_reach n (activity_step a c)
         \<and> take n (messages (activity_step a c)) = take n (messages c)"
proof (cases a)
  case (Deliver event)
  then show ?thesis
    using assms on_delta_frame [OF assms] on_idle_frame [OF assms]
    by (cases event) (simp_all add: session_listener_def)
next
  case (SessionChanged s)
  then show ?thesis using assms by (simp add: out_of_reach_def)
qed

lemma run_activities_frame:
  "out_of_reach n c \<Longrightarrow> take n (messages (run_activities acts c)) = take n (messages c)"
proof (induction acts arbitrary: c)
  case Nil
  then show ?case by simp
next
  case (Cons a acts)
  from activity_step_frame [OF Cons.prems, of a] Cons.IH [of "activity_step a c"]
  show ?case by simp
qed

lemma sendMessage_sync_frame:
  "out_of_reach (Suc (length (messages c))) (sendMessage_sync prompt c)"
  by (simp add: out_of_reach_def sendMessage_sync_eq)

lemma sendMessage_sync_keeps:
  "out_of_reach n c \<Longrightarrow> out_of_reach n (sendMessage_sync prompt c)
     \<and> take n (messages (sendMessage_sync prompt c)) = take n (messages c)"
  by (simp add: out_of_reach_def sendMessage_sync_eq)

lemma run_frame:
  "out_of_reach n c \<Longrightarrow> take n (messages (run ss c)) = take n (messages c)"
proof (induction ss arbitrary: c)
  case Nil
  then show ?case by simp
next
  case (Cons s ss)
  have "out_of_reach n (step s c) \<and> take n (messages (step s c)) = take n (messages c)"
    using Cons.prems activity_step_frame sendMessage_sync_keeps by (cases s) simp_all
  with Cons.IH [of "step s c"] show ?case by simp
qed

subsection \<open>The reference to the message in progress stays inside the list\<close>

lemma on_delta_tracked: "tracked c \<Longrightarrow> tracked (on_delta d c)"
  by (cases d c rule: on_delta_cases)
    (auto simp add: tracked_def on_delta_first on_delta_append nth_append)

lemma on_idle_tracked: "tracked c \<Longrightarrow> tracked (on_idle c)"
  by (cases "idleProcessed c")
    (auto simp add: tracked_def on_idle_latched on_idle_fresh split: option.splits)

lemma activity_step_tracked: "tracked c \<Longrightarrow> tracked (activity_step a c)"
proof (cases a)
  case (Deliver event)
  assume "tracked c"
  then show ?thesis
    using Deliver on_delta_tracked [of c] on_idle_tracked [of c]
    by (cases event) (simp_all add: session_listener_def)
next
  case (SessionChanged s)
  assume "tracked c"
  then show ?thesis using SessionChanged by (simp add: tracked_def)
qed

lemma step_tracked: "tracked c \<Longrightarrow> tracked (step s c)"
  by (cases s) (simp_all add: activity_step_tracked, simp add: tracked_def sendMessage_sync_eq)

lemma run_tracked: "tracked c \<Longrightarrow> tracked (run ss c)"
  by (induction ss arbitrary: c) (simp_all add: step_tracked)

lemma reachable_tracked: "tracked (run ss (createChatSession uuids clock))"
  by (rule run_tracked) (simp add: tracked_def createChatSession_def)

subsection \<open>Calls of the update callback are only added\<close>

lemma on_delta_calls: "prefix (onUpdate_calls c) (onUpdate_calls (on_delta d c))"
  by (cases d c rule: on_delta_cases) (simp_all add: on_delta_first on_delta_append)

lemma on_idle_calls: "prefix (onUpdate_calls c) (onUpdate_calls (on_idle c))"
  by (cases "idleProcessed c") (simp_all add: on_idle_latched on_idle_fresh split: option.splits)

lemma activity_step_calls: "prefix (onUpdate_calls c) (onUpdate_calls (activity_step a c))"
proof (cases a)
  case (Deliver event)
  then show ?thesis
    by (cases event) (simp_all add: session_listener_def on_delta_calls on_idle_calls)
next
  case (SessionChanged s)
  then show ?thesis by simp
qed

lemma run_activities_calls: "prefix (onUpdate_calls c) (onUpdate_calls (run_activities acts c))"
proof (induction acts arbitrary: c)
  case Nil
  then show ?case by simp
next
  case (Cons a acts)
  from activity_step_calls [of c a] Cons.IH [of "activity_step a c"]
  show ?case by (simp add: prefix_order.order_trans)
qed

subsection \<open>The listener adds and changes assistant messages only\<close>

lemma map_role_update:
  "map role (ms[i := (ms ! i)\<lparr>content := x\<rparr>]) = map role ms"
  "map role (ms[i := (ms ! i)\<lparr>isStreaming := y\<rparr>]) = map role ms"
  by (cases "i < length ms"; simp add: list_eq_iff_nth_eq nth_list_update)+

lemma user_messages_append [simp]:
  "user_messages (ms @ ms') = user_messages ms + user_messages ms'"
  by (simp add: user_messages_def)

lemma user_messages_roles: "user_messages ms = length (filter (\<lambda>r. r = User) (map role ms))"
  by (simp add: user_messages_def filter_map comp_def)

lemma user_messages_update:
  "user_messages (ms[i := (ms ! i)\<lparr>content := x\<rparr>]) = user_messages ms"
  "user_messages (ms[i := (ms ! i)\<lparr>isStreaming := y\<rparr>]) = user_messages ms"
  by (simp_all add: user_messages_roles map_role_update)

lemma on_delta_users: "user_messages (messages (on_delta d c)) = user_messages (messages c)"
  by (cases d c rule: on_delta_cases)
    (simp_all add: on_delta_first on_delta_append user_messages_update, simp add: user_messages_def)

lemma on_idle_users: "user_messages (messages (on_idle c)) = user_messages (messages c)"
  by (cases "idleProcessed c")
    (simp_all add: on_idle_latched on_idle_fresh user_messages_update split: option.splits)

lemma activity_step_users:
  "user_messages (messages (activity_step a c)) = user_messages (messages c)"
proof (cases a)
  case (Deliver event)
  then show ?thesis
    by (cases event) (simp_all add: session_listener_def on_delta_users on_idle_users)
next
  case (SessionChanged s)
  then show ?thesis by simp
qed

lemma run_activities_users:
  "user_messages (messages (run_activities acts c)) = user_messages (messages c)"
  by (induction acts arbitrary: c) (simp_all add: activity_step_users)

text \<open>
  What \<open>sendMessage\<close> closes stays closed: in every later history of the session, the
  messages that were in the list when it was called, and its user message, are unchanged.
\<close>

lemma closed_messages_unchanged:
  "take (Suc (length (messages c))) (messages (run ss (sendMessage_sync prompt c)))
     = messages c @ [userMessage prompt c]"
  using run_frame [OF sendMessage_sync_frame, where ss = ss]
  by (simp add: sendMessage_sync_eq)

lemmas eval_chat =
  demo_chat_def createChatSession_def delta_def sendMessage_sync_def resetState_def
  userMessage_def session_listener_def on_delta_def on_idle_def delta_text_def Let_def
  js_inject js_Nil_iff Nil_js_iff js_append streaming_def

section \<open>The session shim: stale events, the idle latch, deltas\<close>

text \<open>
  C6. An event that reaches a listener whose correlation identifier is not the current one
  changes nothing: the list, the message in progress, both loading flags and the calls of
  the update callback are as before; the same holds for any run of such events.
\<close>

theorem stale_events_dropped:
  "currentSessionId c \<noteq> Some (sessionId c) \<Longrightarrow>
   session_listener event c = c
   \<and> messages (session_listener event c) = messages c
   \<and> currentAssistantMessage (session_listener event c) = currentAssistantMessage c
   \<and> isLoading (session_listener event c) = isLoading c
   \<and> chat_isLoading (session_listener event c) = chat_isLoading c
   \<and> onUpdate_calls (session_listener event c) = onUpdate_calls c
   \<and> run_activities (map Deliver events) c = c"
  by (simp add: session_listener_stale stale_run)

theorem stale_events_dropped_witness:
  "currentSessionId (activity_step (SessionChanged (Some (js ''other''))) (sendMessage_sync (js ''q'') demo_chat))
     \<noteq> Some (sessionId (activity_step (SessionChanged (Some (js ''other''))) (sendMessage_sync (js ''q'') demo_chat)))
   \<and> session_listener (AssistantMessageDelta (Some (js ''late'')))
        (activity_step (SessionChanged (Some (js ''other''))) (sendMessage_sync (js ''q'') demo_chat))
       = activity_step (SessionChanged (Some (js ''other''))) (sendMessage_sync (js ''q'') demo_chat)
   \<and> run_activities (map Deliver [AssistantMessageDelta (Some (js ''late'')), SessionIdle])
        (activity_step (SessionChanged (Some (js ''other''))) (sendMessage_sync (js ''q'') demo_chat))
       = activity_step (SessionChanged (Some (js ''other''))) (sendMessage_sync (js ''q'') demo_chat)"
proof -
  let ?c = "activity_step (SessionChanged (Some (js ''other''))) (sendMessage_sync (js ''q'') demo_chat)"
  have stale: "currentSessionId ?c \<noteq> Some (sessionId ?c)"
    by (simp add: eval_chat)
  from stale
    stale_events_dropped [OF stale, of "AssistantMessageDelta (Some (js ''late''))"
      "[AssistantMessageDelta (Some (js ''late'')), SessionIdle]"]
  show ?thesis by blast
qed

text \<open>
  C5. Once the idle event has been processed, a further idle event changes nothing: no
  field changes and the callback is not called; so two idle events in a row act as one,
  and in whatever follows, idle events can be deleted without changing the outcome. No
  event and no change of the current session clears the latch; \<open>sendMessage\<close> does, and the
  next idle event on the active session is processed then: it clears the streaming flag of
  the message in progress, sets loading to false and calls the callback with the final list.
\<close>

theorem idle_processed_once:
  "(idleProcessed c \<longrightarrow> session_listener SessionIdle c = c)
   \<and> session_listener SessionIdle (session_listener SessionIdle c)
       = session_listener SessionIdle c
   \<and> (currentSessionId c = Some (sessionId c) \<and> \<not> idleProcessed c \<longrightarrow>
        idleProcessed (session_listener SessionIdle c)
        \<and> \<not> isLoading (session_listener SessionIdle c)
        \<and> currentAssistantMessage (session_listener SessionIdle c) = None
        \<and> messages (session_listener SessionIdle c) =
            (case currentAssistantMessage c of
               None \<Rightarrow> messages c
             | Some i \<Rightarrow> (messages c)[i := (messages c ! i)\<lparr>isStreaming := Some False\<rparr>])
        \<and> onUpdate_calls (session_listener SessionIdle c) =
            onUpdate_calls c @ [(messages (session_listener SessionIdle c), False)])
   \<and> (idleProcessed c \<longrightarrow> idleProcessed (activity_step a c))
   \<and> (idleProcessed c \<longrightarrow>
        run_activities acts c = run_activities (filter (\<lambda>a. a \<noteq> Deliver SessionIdle) acts) c)
   \<and> \<not> idleProcessed (sendMessage_sync prompt c)"
proof (intro conjI impI)
  show "session_listener SessionIdle (session_listener SessionIdle c)
       = session_listener SessionIdle c"
    by (rule idle_twice)
  show "\<not> idleProcessed (sendMessage_sync prompt c)"
    by (simp add: sendMessage_sync_eq)
next
  assume "idleProcessed c"
  then show "session_listener SessionIdle c = c" "idleProcessed (activity_step a c)"
    "run_activities acts c = run_activities (filter (\<lambda>a. a \<noteq> Deliver SessionIdle) acts) c"
    by (simp_all add: idle_latched activity_step_latch idles_dropped_when_latched [symmetric])
next
  assume a: "currentSessionId c = Some (sessionId c) \<and> \<not> idleProcessed c"
  then have eq: "session_listener SessionIdle c = on_idle c"
    by (simp add: listener_idle_active)
  show "idleProcessed (session_listener SessionIdle c)"
    "\<not> isLoading (session_listener SessionIdle c)"
    "currentAssistantMessage (session_listener SessionIdle c) = None"
    "messages (session_listener SessionIdle c) =
            (case currentAssistantMessage c of
               None \<Rightarrow> messages c
             | Some i \<Rightarrow> (messages c)[i := (messages c ! i)\<lparr>isStreaming := Some False\<rparr>])"
    "onUpdate_calls (session_listener SessionIdle c) =
            onUpdate_calls c @ [(messages (session_listener SessionIdle c), False)]"
    using a unfolding eq by (simp_all add: on_idle_fresh split: option.splits)
qed

theorem idle_processed_once_witness:
  "idleProcessed (run [Send (js ''q''), Act (delta ''x''), Act (Deliver SessionIdle)] demo_chat)
   \<and> session_listener SessionIdle
        (run [Send (js ''q''), Act (delta ''x''), Act (Deliver SessionIdle)] demo_chat)
       = run [Send (js ''q''), Act (delta ''x''), Act (Deliver SessionIdle)] demo_chat
   \<and> run_activities [Deliver SessionIdle, delta ''y'', Deliver SessionIdle]
        (run [Send (js ''q''), Act (delta ''x''), Act (Deliver SessionIdle)] demo_chat)
       = run_activities [delta ''y'']
          (run [Send (js ''q''), Act (delta ''x''), Act (Deliver SessionIdle)] demo_chat)
   \<and> currentSessionId (run [Send (js ''q''), Act (delta ''x'')] demo_chat)
       = Some (sessionId (run [Send (js ''q''), Act (delta ''x'')] demo_chat))
   \<and> \<not> idleProcessed (run [Send (js ''q''), Act (delta ''x'')] demo_chat)
   \<and> map isStreaming (messages (run [Send (js ''q''), Act (delta ''x'')] demo_chat))
       = [None, Some True]
   \<and> map isStreaming
        (messages (session_listener SessionIdle (run [Send (js ''q''), Act (delta ''x'')] demo_chat)))
       = [None, Some False]
   \<and> \<not> isLoading (session_listener SessionIdle (run [Send (js ''q''), Act (delta ''x'')] demo_chat))"
proof -
  let ?c1 = "run [Send (js ''q''), Act (delta ''x''), Act (Deliver SessionIdle)] demo_chat"
  let ?c2 = "run [Send (js ''q''), Act (delta ''x'')] demo_chat"
  have latched: "idleProcessed ?c1"
    by (simp add: eval_chat)
  have pre: "currentSessionId ?c2 = Some (sessionId ?c2) \<and> \<not> idleProcessed ?c2"
    by (simp add: eval_chat)
  have cur: "currentAssistantMessage ?c2 = Some 1"
    by (simp add: eval_chat)
  have before: "map isStreaming (messages ?c2) = [None, Some True]"
    by (simp add: eval_chat)
  have flt: "filter (\<lambda>a. a \<noteq> Deliver SessionIdle) [Deliver SessionIdle, delta ''y'', Deliver SessionIdle]
      = [delta ''y'']"
    by (simp add: delta_def)
  note once = idle_processed_once [of ?c1, THEN conjunct1, THEN mp, OF latched]
  note drop = idle_processed_once
    [of ?c1 _ "[Deliver SessionIdle, delta ''y'', Deliver SessionIdle]",
      THEN conjunct2, THEN conjunct2, THEN conjunct2, THEN conjunct2, THEN conjunct1, THEN mp,
      OF latched]
  note fresh = idle_processed_once
    [of ?c2, THEN conjunct2, THEN conjunct2, THEN conjunct1, THEN mp, OF pre]
  have after: "map isStreaming (messages (session_listener SessionIdle ?c2)) = [None, Some False]"
    using before
    by (simp only: fresh [THEN conjunct2, THEN conjunct2, THEN conjunct2, THEN conjunct1] cur
        option.case)
      (simp add: map_update eval_chat)
  from latched once drop [unfolded flt] pre before after fresh [THEN conjunct2, THEN conjunct1]
  show ?thesis by blast
qed

text \<open>
  C2. Deltas delivered to the active session: empty (or missing) deltas change nothing at
  all. When no assistant message is in progress and some delta is not empty, the run of
  deltas creates one assistant message whose content is the concatenation of the non-empty
  deltas with every consecutive repetition collapsed to its first occurrence. When the
  message at \<open>i\<close> is in progress, the same holds for what is appended to it, the delta
  remembered from before counting as the previous one. For the deltas "Hi", "Hi", " there"
  the content is "Hi there".
\<close>

theorem delta_duplicates_suppressed:
  "(fragments ds = [] \<longrightarrow> run_activities (deltas ds) c = c)
   \<and> (currentSessionId c = Some (sessionId c) \<and> currentAssistantMessage c = None
        \<and> fragments ds \<noteq> [] \<longrightarrow>
        messages (run_activities (deltas ds) c) =
          messages c @
            [\<lparr>msg_id = uuid_src c (draws c), role = Assistant,
              content = concat (remdups_adj (fragments ds)),
              timestamp = clock_src c (draws c), isStreaming = Some True\<rparr>]
        \<and> currentAssistantMessage (run_activities (deltas ds) c) = Some (length (messages c)))
   \<and> (currentSessionId c = Some (sessionId c) \<and> currentAssistantMessage c = Some i
        \<and> i < length (messages c) \<longrightarrow>
        messages (run_activities (deltas ds) c) =
          (messages c)
            [i := (messages c ! i)
               \<lparr>content := content (messages c ! i) @
                  concat (tl (remdups_adj (lastDeltaContent c # fragments ds)))\<rparr>]
        \<and> currentAssistantMessage (run_activities (deltas ds) c) = Some i)"
  using deltas_all_empty [of ds c] deltas_start [of c ds] deltas_extend [of c i ds]
  by blast

theorem delta_duplicates_suppressed_witness:
  "currentSessionId (sendMessage_sync (js ''hello'') demo_chat)
     = Some (sessionId (sendMessage_sync (js ''hello'') demo_chat))
   \<and> currentAssistantMessage (sendMessage_sync (js ''hello'') demo_chat) = None
   \<and> fragments [Some (js ''Hi''), Some (js ''Hi''), Some (js '' there'')] \<noteq> []
   \<and> map content
        (messages
           (run_activities (deltas [Some (js ''Hi''), Some (js ''Hi''), Some (js '' there'')])
              (sendMessage_sync (js ''hello'') demo_chat)))
       = [js ''hello'', js ''Hi there'']
   \<and> fragments [None, Some []] = []
   \<and> run_activities (deltas [None, Some []]) (sendMessage_sync (js ''hello'') demo_chat)
       = sendMessage_sync (js ''hello'') demo_chat
   \<and> currentAssistantMessage (run [Send (js ''hello''), Act (delta ''Hi'')] demo_chat) = Some 1
   \<and> lastDeltaContent (run [Send (js ''hello''), Act (delta ''Hi'')] demo_chat) = js ''Hi''
   \<and> map content
        (messages
           (run_activities (deltas [Some (js ''Hi''), None, Some (js ''Hi''), Some (js '' there'')])
              (run [Send (js ''hello''), Act (delta ''Hi'')] demo_chat)))
       = [js ''hello'', js ''Hi there'']"
proof -
  let ?c = "sendMessage_sync (js ''hello'') demo_chat"
  let ?ds = "[Some (js ''Hi''), Some (js ''Hi''), Some (js '' there'')]"
  let ?c' = "run [Send (js ''hello''), Act (delta ''Hi'')] demo_chat"
  let ?ds' = "[Some (js ''Hi''), None, Some (js ''Hi''), Some (js '' there'')]"
  have pre: "currentSessionId ?c = Some (sessionId ?c) \<and> currentAssistantMessage ?c = None
      \<and> fragments ?ds \<noteq> []"
    by (simp add: eval_chat fragments_def)
  have acc: "concat (remdups_adj (fragments ?ds)) = js ''Hi there''"
    by (simp add: fragments_def delta_text_def js_inject js_Nil_iff js_append)
  have first: "map content (messages ?c) = [js ''hello'']"
    by (simp add: eval_chat)
  have none: "fragments [None, Some []] = []"
    by (simp add: fragments_def delta_text_def)
  note t = delta_duplicates_suppressed [of ?ds ?c, THEN conjunct2, THEN conjunct1, THEN mp, OF pre]
  have r1: "map content (messages (run_activities (deltas ?ds) ?c)) = [js ''hello'', js ''Hi there'']"
    by (simp only: t [THEN conjunct1] map_append first acc list.map Message.simps append.simps)
  have r2: "run_activities (deltas [None, Some []]) ?c = ?c"
    using delta_duplicates_suppressed [of "[None, Some []]" ?c, THEN conjunct1, THEN mp, OF none] .
  have pre': "currentSessionId ?c' = Some (sessionId ?c') \<and> currentAssistantMessage ?c' = Some 1
      \<and> 1 < length (messages ?c')"
    by (simp add: eval_chat)
  have last': "lastDeltaContent ?c' = js ''Hi''"
    by (simp add: eval_chat)
  have acc': "concat (tl (remdups_adj (js ''Hi'' # fragments ?ds'))) = js '' there''"
    by (simp add: fragments_def delta_text_def js_inject js_Nil_iff js_append)
  note t' = delta_duplicates_suppressed
    [of ?ds' ?c' 1, THEN conjunct2, THEN conjunct2, THEN mp, OF pre', THEN conjunct1]
  have r3: "map content (messages (run_activities (deltas ?ds') ?c')) = [js ''hello'', js ''Hi there'']"
    by (simp only: t' last' acc') (simp add: map_update eval_chat)
  from pre none r1 r2 pre' last' r3 show ?thesis by blast
qed

text \<open>
  C10. The remembered delta is cleared by \<open>sendMessage\<close> and by an idle event that is
  processed. On the active session a non-empty delta is dropped exactly when it equals the
  remembered delta and a message is in progress. So the first delta of a response is
  appended as a new message even when it equals the last delta of the previous response,
  and a delta that differs from the one just before it is appended even when it equals an
  earlier one.
\<close>

theorem duplicate_suppression_scope:
  "lastDeltaContent (sendMessage_sync prompt c) = []
   \<and> (currentSessionId c = Some (sessionId c) \<and> \<not> idleProcessed c \<longrightarrow>
        lastDeltaContent (session_listener SessionIdle c) = [])
   \<and> (currentSessionId c = Some (sessionId c) \<and> delta_text d \<noteq> [] \<longrightarrow>
        (session_listener (AssistantMessageDelta d) c = c \<longleftrightarrow>
           delta_text d = lastDeltaContent c \<and> currentAssistantMessage c \<noteq> None))
   \<and> (currentSessionId c = Some (sessionId c) \<and> delta_text d \<noteq> []
        \<and> currentAssistantMessage c = None \<longrightarrow>
        messages (session_listener (AssistantMessageDelta d) c) =
          messages c @
            [\<lparr>msg_id = uuid_src c (draws c), role = Assistant, content = delta_text d,
              timestamp = clock_src c (draws c), isStreaming = Some True\<rparr>])
   \<and> (currentSessionId c = Some (sessionId c) \<and> delta_text d \<noteq> []
        \<and> currentAssistantMessage c = Some i \<and> delta_text d \<noteq> lastDeltaContent c \<longrightarrow>
        messages (session_listener (AssistantMessageDelta d) c) =
          (messages c)[i := (messages c ! i)\<lparr>content := content (messages c ! i) @ delta_text d\<rparr>])"
proof (intro conjI impI)
  show "lastDeltaContent (sendMessage_sync prompt c) = []"
    by (simp add: sendMessage_sync_eq)
next
  assume "currentSessionId c = Some (sessionId c) \<and> \<not> idleProcessed c"
  then show "lastDeltaContent (session_listener SessionIdle c) = []"
    by (simp add: listener_idle_active on_idle_fresh split: option.splits)
next
  assume a: "currentSessionId c = Some (sessionId c) \<and> delta_text d \<noteq> []"
  show "session_listener (AssistantMessageDelta d) c = c \<longleftrightarrow>
           delta_text d = lastDeltaContent c \<and> currentAssistantMessage c \<noteq> None"
  proof (cases "delta_text d = lastDeltaContent c \<and> currentAssistantMessage c \<noteq> None")
    case True
    then obtain i where "currentAssistantMessage c = Some i" by auto
    with True a show ?thesis
      by (simp add: listener_delta_active on_delta_duplicate)
  next
    case False
    with a on_delta_changes [of d c] show ?thesis
      by (simp add: listener_delta_active)
  qed
next
  assume "currentSessionId c = Some (sessionId c) \<and> delta_text d \<noteq> []
        \<and> currentAssistantMessage c = None"
  then show "messages (session_listener (AssistantMessageDelta d) c) =
          messages c @
            [\<lparr>msg_id = uuid_src c (draws c), role = Assistant, content = delta_text d,
              timestamp = clock_src c (draws c), isStreaming = Some True\<rparr>]"
    by (simp add: listener_delta_active on_delta_first)
next
  assume "currentSessionId c = Some (sessionId c) \<and> delta_text d \<noteq> []
        \<and> currentAssistantMessage c = Some i \<and> delta_text d \<noteq> lastDeltaContent c"
  then show "messages (session_listener (AssistantMessageDelta d) c) =
          (messages c)[i := (messages c ! i)\<lparr>content := content (messages c ! i) @ delta_text d\<rparr>]"
    by (simp add: listener_delta_active on_delta_append)
qed

theorem duplicate_suppression_scope_witness:
  "currentSessionId (run [Send (js ''q1''), Act (delta ''a''), Act (Deliver SessionIdle), Send (js ''q2'')] demo_chat)
     = Some (sessionId (run [Send (js ''q1''), Act (delta ''a''), Act (Deliver SessionIdle), Send (js ''q2'')] demo_chat))
   \<and> currentAssistantMessage (run [Send (js ''q1''), Act (delta ''a''), Act (Deliver SessionIdle), Send (js ''q2'')] demo_chat) = None
   \<and> delta_text (Some (js ''a'')) \<noteq> []
   \<and> map content (messages (session_listener (AssistantMessageDelta (Some (js ''a'')))
        (run [Send (js ''q1''), Act (delta ''a''), Act (Deliver SessionIdle), Send (js ''q2'')] demo_chat)))
       = [js ''q1'', js ''a'', js ''q2'', js ''a'']
   \<and> currentAssistantMessage (run [Send (js ''q1''), Act (delta ''a''), Act (delta ''b'')] demo_chat) = Some 1
   \<and> delta_text (Some (js ''a'')) \<noteq> lastDeltaContent (run [Send (js ''q1''), Act (delta ''a''), Act (delta ''b'')] demo_chat)
   \<and> map content (messages (session_listener (AssistantMessageDelta (Some (js ''a'')))
        (run [Send (js ''q1''), Act (delta ''a''), Act (delta ''b'')] demo_chat)))
       = [js ''q1'', js ''aba'']
   \<and> delta_text (Some (js ''b'')) = lastDeltaContent (run [Send (js ''q1''), Act (delta ''a''), Act (delta ''b'')] demo_chat)
   \<and> session_listener (AssistantMessageDelta (Some (js ''b'')))
        (run [Send (js ''q1''), Act (delta ''a''), Act (delta ''b'')] demo_chat)
       = run [Send (js ''q1''), Act (delta ''a''), Act (delta ''b'')] demo_chat
   \<and> \<not> idleProcessed (run [Send (js ''q1''), Act (delta ''a''), Act (delta ''b'')] demo_chat)
   \<and> lastDeltaContent (session_listener SessionIdle
        (run [Send (js ''q1''), Act (delta ''a''), Act (delta ''b'')] demo_chat)) = []"
proof -
  let ?c1 = "run [Send (js ''q1''), Act (delta ''a''), Act (Deliver SessionIdle), Send (js ''q2'')] demo_chat"
  let ?c2 = "run [Send (js ''q1''), Act (delta ''a''), Act (delta ''b'')] demo_chat"
  let ?d = "Some (js ''a'')"
  let ?b = "Some (js ''b'')"
  have pre1: "currentSessionId ?c1 = Some (sessionId ?c1) \<and> delta_text ?d \<noteq> []
      \<and> currentAssistantMessage ?c1 = None"
    by (simp add: eval_chat)
  have pre2: "currentSessionId ?c2 = Some (sessionId ?c2) \<and> delta_text ?d \<noteq> []
      \<and> currentAssistantMessage ?c2 = Some 1 \<and> delta_text ?d \<noteq> lastDeltaContent ?c2"
    by (simp add: eval_chat)
  have pre3: "currentSessionId ?c2 = Some (sessionId ?c2) \<and> delta_text ?b \<noteq> []"
    by (simp add: eval_chat)
  have dup: "delta_text ?b = lastDeltaContent ?c2 \<and> currentAssistantMessage ?c2 \<noteq> None"
    by (simp add: eval_chat)
  have pre4: "currentSessionId ?c2 = Some (sessionId ?c2) \<and> \<not> idleProcessed ?c2"
    by (simp add: eval_chat)
  have m1: "map content (messages ?c1) = [js ''q1'', js ''a'', js ''q2'']"
    by (simp add: eval_chat)
  have m2: "map content (messages ?c2) = [js ''q1'', js ''ab'']"
    by (simp add: eval_chat)
  note first = duplicate_suppression_scope
    [of _ ?c1 ?d, THEN conjunct2, THEN conjunct2, THEN conjunct2, THEN conjunct1, THEN mp, OF pre1]
  note again = duplicate_suppression_scope
    [of _ ?c2 ?d 1, THEN conjunct2, THEN conjunct2, THEN conjunct2, THEN conjunct2, THEN mp, OF pre2]
  note dropped = duplicate_suppression_scope
    [of _ ?c2 ?b, THEN conjunct2, THEN conjunct2, THEN conjunct1, THEN mp, OF pre3, THEN iffD2, OF dup]
  note cleared = duplicate_suppression_scope
    [of _ ?c2, THEN conjunct2, THEN conjunct1, THEN mp, OF pre4]
  have r1: "map content (messages (session_listener (AssistantMessageDelta ?d) ?c1))
       = [js ''q1'', js ''a'', js ''q2'', js ''a'']"
    by (simp only: first map_append m1) (simp add: delta_text_def)
  have r2: "map content (messages (session_listener (AssistantMessageDelta ?d) ?c2))
       = [js ''q1'', js ''aba'']"
    using m2 by (simp only: again) (simp add: map_update eval_chat)
  from pre1 pre2 r1 r2 dup dropped pre4 cleared show ?thesis by blast
qed

section \<open>The session shim: \<open>sendMessage\<close>\<close>

text \<open>
  C7. Before it awaits the vendor call, \<open>sendMessage\<close> has appended one message with role
  user and the prompt as content, set loading, reset the accumulator (no message in
  progress, no remembered delta, idle latch open) and called the callback with the
  extended list and loading true. Whatever is delivered while the call is pending, and
  whether the call resolves or rejects, the list still starts with the old messages and
  that user message, the callback's calls still start with the old calls and that call,
  and the list holds exactly one more user message than before.
\<close>

theorem sendMessage_appends_user_message:
  "role (userMessage prompt c) = User \<and> content (userMessage prompt c) = prompt
   \<and> messages (sendMessage_sync prompt c) = messages c @ [userMessage prompt c]
   \<and> isLoading (sendMessage_sync prompt c) \<and> chat_isLoading (sendMessage_sync prompt c)
   \<and> currentAssistantMessage (sendMessage_sync prompt c) = None
   \<and> lastDeltaContent (sendMessage_sync prompt c) = []
   \<and> \<not> idleProcessed (sendMessage_sync prompt c)
   \<and> onUpdate_calls (sendMessage_sync prompt c) =
       onUpdate_calls c @ [(messages c @ [userMessage prompt c], True)]
   \<and> sendMessage during failure prompt c =
       (case failure of Some e \<Rightarrow> Inl e | None \<Rightarrow> Inr (),
        run_activities during (sendMessage_sync prompt c))
   \<and> take (Suc (length (messages c))) (messages (snd (sendMessage during failure prompt c)))
       = messages c @ [userMessage prompt c]
   \<and> take (Suc (length (onUpdate_calls c)))
         (onUpdate_calls (snd (sendMessage during failure prompt c)))
       = onUpdate_calls c @ [(messages c @ [userMessage prompt c], True)]
   \<and> user_messages (messages (snd (sendMessage during failure prompt c)))
       = Suc (user_messages (messages c))"
proof -
  let ?c1 = "sendMessage_sync prompt c"
  have snd_eq: "snd (sendMessage during failure prompt c) = run_activities during ?c1"
    by (simp add: sendMessage_def Let_def)
  have m: "take (Suc (length (messages c))) (messages (run_activities during ?c1))
       = messages c @ [userMessage prompt c]"
    using run_activities_frame [OF sendMessage_sync_frame, where acts = during]
    by (simp add: sendMessage_sync_eq)
  obtain more where "onUpdate_calls (run_activities during ?c1) = onUpdate_calls ?c1 @ more"
    using run_activities_calls [where acts = during and c = ?c1] by (auto simp add: prefix_def)
  then have u: "take (Suc (length (onUpdate_calls c))) (onUpdate_calls (run_activities during ?c1))
       = onUpdate_calls c @ [(messages c @ [userMessage prompt c], True)]"
    by (simp add: sendMessage_sync_eq)
  have n: "user_messages (messages (run_activities during ?c1)) = Suc (user_messages (messages c))"
    by (simp add: run_activities_users) (simp add: sendMessage_sync_eq user_messages_def userMessage_def)
  show ?thesis
    unfolding snd_eq using m u n
    by (simp add: sendMessage_def Let_def) (simp add: sendMessage_sync_eq userMessage_def)
qed

text \<open>
  C3. A second \<open>sendMessage\<close> while the first response is still streaming: \<open>resetState\<close>
  drops the reference to the message in progress and leaves its streaming flag set, so
  after the next delta the list holds two assistant messages flagged as streaming.
\<close>

theorem resend_leaves_two_streaming_messages:
  "map content
     (streaming (messages
        (run [Send (js ''one''), Act (delta ''x''), Send (js ''two''), Act (delta ''y'')]
           demo_chat)))
   = [js ''x'', js ''y'']"
  by (simp add: eval_chat)

end
